theory Spec2Isabelle
  imports Complex_Main "HOL-Library.Word"
begin

section \<open>Expression type checking of go/types (expr.go)\<close>

text \<open>
  A shallow embedding of the parts of \<^verbatim>\<open>go/types/expr.go\<close> that decide the
  properties below: the representability check, the tracker of untyped expressions
  (\<^verbatim>\<open>updateExprType\<close>, \<^verbatim>\<open>convertUntyped\<close>), the operator rules
  (\<^verbatim>\<open>comparison\<close>, \<^verbatim>\<open>shift\<close>, \<^verbatim>\<open>binary\<close>), the index
  checker (\<^verbatim>\<open>index\<close>, \<^verbatim>\<open>indexedElts\<close>) and the map-literal and
  slice-expression cases of \<^verbatim>\<open>expr0\<close>.
\<close>

subsection \<open>Machine integers\<close>

text \<open>Go's \<^verbatim>\<open>int64\<close> and (on a 64-bit host) \<^verbatim>\<open>uint\<close>: 64-bit words;
  \<^term>\<open>sint\<close> reads the signed value, \<^term>\<open>unat\<close> the unsigned one.\<close>

type_synonym int64 = "64 word"
type_synonym uint = "64 word"

subsection \<open>Basic kinds\<close>

text \<open>Modelled from the spec: the enumeration \<^verbatim>\<open>BasicKind\<close> is declared outside
  expr.go; the spec's glossary lists the basic kinds (signed and unsigned integers of
  fixed width, floats, complex, bool, string), each with a typed and an untyped form.
  The constructors are in the order of the enumeration; \<^verbatim>\<open>Int\<close> is
  written \<open>IntKind\<close> (\<open>Int\<close> is HOL's intersection).\<close>

datatype BasicKind =
    Invalid
  | Bool | IntKind | Int8 | Int16 | Int32 | Int64
  | Uint | Uint8 | Uint16 | Uint32 | Uint64 | Uintptr
  | Float32 | Float64 | Complex64 | Complex128
  | String | UnsafePointer
  | UntypedBool | UntypedInt | UntypedRune | UntypedFloat | UntypedComplex
  | UntypedString | UntypedNil

subsection \<open>Exact values\<close>

text \<open>Modelled from the spec: package \<^verbatim>\<open>exact\<close> is not part of expr.go. The spec
  describes an arbitrary-precision constant representation (boolean, integer,
  rational/float, complex, string, unknown); \<^verbatim>\<open>nil\<close> is a constant kind of its own
  in expr.go (\<^verbatim>\<open>exact.Nil\<close>).\<close>

datatype Value =
    unknownVal
  | boolVal bool
  | intVal int
  | floatVal rat
  | complexVal rat rat
  | stringVal string
  | nilVal

datatype ValueKind =
    exact_Unknown | exact_Bool | exact_Int | exact_Float | exact_Complex
  | exact_String | exact_Nil

text \<open>Modelled from the spec: \<^verbatim>\<open>Value.Kind\<close> names the variant of a value.\<close>

fun Kind :: "Value \<Rightarrow> ValueKind" where
  "Kind unknownVal = exact_Unknown"
| "Kind (boolVal b) = exact_Bool"
| "Kind (intVal i) = exact_Int"
| "Kind (floatVal r) = exact_Float"
| "Kind (complexVal re im) = exact_Complex"
| "Kind (stringVal s) = exact_String"
| "Kind nilVal = exact_Nil"

text \<open>Modelled from the spec: \<^verbatim>\<open>exact.Int64Val\<close> returns the value as an
  \<^verbatim>\<open>int64\<close> and whether the value fits one; the first component is the value
  truncated to 64 bits. Applied to integer values only.\<close>

fun Int64Val :: "Value \<Rightarrow> int64 \<times> bool" where
  "Int64Val (intVal i) = (word_of_int i, - (2 ^ 63) \<le> i \<and> i \<le> 2 ^ 63 - 1)"
| "Int64Val v = (0, False)"

text \<open>Modelled from the spec: \<^verbatim>\<open>exact.Uint64Val\<close>, the same for \<^verbatim>\<open>uint64\<close>.\<close>

fun Uint64Val :: "Value \<Rightarrow> uint \<times> bool" where
  "Uint64Val (intVal i) = (word_of_int i, 0 \<le> i \<and> i \<le> 2 ^ 64 - 1)"
| "Uint64Val v = (0, False)"

text \<open>The number of bits of a natural number.\<close>

fun bits :: "nat \<Rightarrow> nat" where
  "bits n = (if n = 0 then 0 else Suc (bits (n div 2)))"

declare bits.simps [simp del]

text \<open>Modelled from the spec: \<^verbatim>\<open>exact.BitLen\<close> is the number of bits needed for
  the absolute value of an integer value.\<close>

fun BitLen :: "Value \<Rightarrow> int" where
  "BitLen (intVal i) = int (bits (nat \<bar>i\<bar>))"
| "BitLen v = 0"

text \<open>Modelled from the spec: \<^verbatim>\<open>exact.Sign\<close> is -1, 0 or 1 as the numeric value
  is negative, zero or positive (for a complex value: 0 iff it is zero); an unknown
  value has sign 1.\<close>

fun Sign :: "Value \<Rightarrow> int" where
  "Sign (intVal i) = sgn i"
| "Sign (floatVal r) = (if r < 0 then - 1 else if r = 0 then 0 else 1)"
| "Sign (complexVal re im) = (if re = 0 \<and> im = 0 then 0 else 1)"
| "Sign v = 1"

subsection \<open>The context\<close>

text \<open>\<^verbatim>\<open>Context\<close> as expr.go uses it: \<^verbatim>\<open>sizeof\<close> gives the size in bytes of a
  basic type (an \<^verbatim>\<open>int64\<close>), and \<^verbatim>\<open>Expr\<close>, when present, is the callback
  notified of the final type of an expression. The model records the calls of the
  callback in the checker's state, so the field only says whether one is installed.\<close>

record Context =
  sizeof :: "BasicKind \<Rightarrow> int64"
  has_Expr :: bool

subsection \<open>Representability\<close>

text \<open>The first \<^verbatim>\<open>switch as\<close> of the integer case, entered when the value fits an
  \<^verbatim>\<open>int64\<close>: \<open>Some b\<close> is \<^verbatim>\<open>return b\<close>, \<open>None\<close> leaves the switch. The
  shifts by the constant \<^verbatim>\<open>s\<close> are constant expressions; those by the variable
  \<^verbatim>\<open>s\<close> are \<^verbatim>\<open>int64\<close> shifts (a count of 64 or more gives 0).\<close>

definition int64_switch :: "int64 \<Rightarrow> Context \<Rightarrow> BasicKind \<Rightarrow> bool option" where
  "int64_switch x ctxt as =
    (case as of
       IntKind \<Rightarrow>
         (let s = (sizeof ctxt as :: uint) * 8
          in Some (sint (push_bit (unat (s - 1)) (- 1 :: int64)) \<le> sint x
                   \<and> sint x \<le> sint (push_bit (unat (s - 1)) (1 :: int64) - 1)))
     | Int8 \<Rightarrow> Some (- (2 ^ (8 - 1)) \<le> sint x \<and> sint x \<le> 2 ^ (8 - 1) - 1)
     | Int16 \<Rightarrow> Some (- (2 ^ (16 - 1)) \<le> sint x \<and> sint x \<le> 2 ^ (16 - 1) - 1)
     | Int32 \<Rightarrow> Some (- (2 ^ (32 - 1)) \<le> sint x \<and> sint x \<le> 2 ^ (32 - 1) - 1)
     | Int64 \<Rightarrow> Some True
     | Uint \<Rightarrow>
         (let s = (sizeof ctxt as :: uint) * 8
          in if s < 64
             then Some (0 \<le> sint x \<and> sint x \<le> sint (push_bit (unat s) (1 :: int64) - 1))
             else Some (0 \<le> sint x))
     | Uintptr \<Rightarrow>
         (let s = (sizeof ctxt as :: uint) * 8
          in if s < 64
             then Some (0 \<le> sint x \<and> sint x \<le> sint (push_bit (unat s) (1 :: int64) - 1))
             else Some (0 \<le> sint x))
     | Uint8 \<Rightarrow> Some (0 \<le> sint x \<and> sint x \<le> 2 ^ 8 - 1)
     | Uint16 \<Rightarrow> Some (0 \<le> sint x \<and> sint x \<le> 2 ^ 16 - 1)
     | Uint32 \<Rightarrow> Some (0 \<le> sint x \<and> sint x \<le> 2 ^ 32 - 1)
     | Uint64 \<Rightarrow> Some (0 \<le> sint x)
     | Float32 \<Rightarrow> Some True
     | Float64 \<Rightarrow> Some True
     | Complex64 \<Rightarrow> Some True
     | Complex128 \<Rightarrow> Some True
     | UntypedInt \<Rightarrow> Some True
     | UntypedFloat \<Rightarrow> Some True
     | UntypedComplex \<Rightarrow> Some True
     | _ \<Rightarrow> None)"

text \<open>The second \<^verbatim>\<open>switch as\<close> of the integer case, on the bit length
  (\<^verbatim>\<open>int(s)\<close> reads the \<^verbatim>\<open>uint\<close> as signed).\<close>

definition bitlen_switch :: "Value \<Rightarrow> Context \<Rightarrow> BasicKind \<Rightarrow> bool option" where
  "bitlen_switch x ctxt as =
    (let n = BitLen x in
     case as of
       Uint \<Rightarrow> (let s = (sizeof ctxt as :: uint) * 8 in Some (Sign x \<ge> 0 \<and> n \<le> sint s))
     | Uintptr \<Rightarrow> (let s = (sizeof ctxt as :: uint) * 8 in Some (Sign x \<ge> 0 \<and> n \<le> sint s))
     | Uint64 \<Rightarrow> Some (Sign x \<ge> 0 \<and> n \<le> 64)
     | Float32 \<Rightarrow> Some True
     | Float64 \<Rightarrow> Some True
     | Complex64 \<Rightarrow> Some True
     | Complex128 \<Rightarrow> Some True
     | UntypedInt \<Rightarrow> Some True
     | UntypedFloat \<Rightarrow> Some True
     | UntypedComplex \<Rightarrow> Some True
     | _ \<Rightarrow> None)"

text \<open>\<^verbatim>\<open>isRepresentableConst(x, ctxt, as)\<close>. A switch that is left without a
  \<^verbatim>\<open>return\<close> reaches the final \<^verbatim>\<open>return false\<close>.\<close>

definition isRepresentableConst :: "Value \<Rightarrow> Context \<Rightarrow> BasicKind \<Rightarrow> bool" where
  "isRepresentableConst x ctxt as =
    (case Kind x of
       exact_Unknown \<Rightarrow> True
     | exact_Bool \<Rightarrow> as = Bool \<or> as = UntypedBool
     | exact_Int \<Rightarrow>
         (case (let (x64, ok) = Int64Val x in if ok then int64_switch x64 ctxt as else None) of
            Some b \<Rightarrow> b
          | None \<Rightarrow> (case bitlen_switch x ctxt as of Some b \<Rightarrow> b | None \<Rightarrow> False))
     | exact_Float \<Rightarrow>
         (case as of
            Float32 \<Rightarrow> True | Float64 \<Rightarrow> True | Complex64 \<Rightarrow> True | Complex128 \<Rightarrow> True
          | UntypedFloat \<Rightarrow> True | UntypedComplex \<Rightarrow> True
          | _ \<Rightarrow> False)
     | exact_Complex \<Rightarrow>
         (case as of
            Complex64 \<Rightarrow> True | Complex128 \<Rightarrow> True | UntypedComplex \<Rightarrow> True
          | _ \<Rightarrow> False)
     | exact_String \<Rightarrow> as = String \<or> as = UntypedString
     | exact_Nil \<Rightarrow> as = UntypedNil \<or> as = UnsafePointer)"

text \<open>The integer kinds of a target type and their widths in bits; the width of
  \<^verbatim>\<open>int\<close>, \<^verbatim>\<open>uint\<close> and \<^verbatim>\<open>uintptr\<close> is that of the configured word.\<close>

definition signed_kinds :: "BasicKind set" where
  "signed_kinds = {IntKind, Int8, Int16, Int32, Int64}"

definition unsigned_kinds :: "BasicKind set" where
  "unsigned_kinds = {Uint, Uint8, Uint16, Uint32, Uint64, Uintptr}"

definition word_sized :: "BasicKind set" where
  "word_sized = {IntKind, Uint, Uintptr}"

definition width :: "Context \<Rightarrow> BasicKind \<Rightarrow> nat" where
  "width ctxt k =
    (if k = Int8 \<or> k = Uint8 then 8
     else if k = Int16 \<or> k = Uint16 then 16
     else if k = Int32 \<or> k = Uint32 then 32
     else if k = Int64 \<or> k = Uint64 then 64
     else 8 * unat (sizeof ctxt k))"

subsection \<open>Types\<close>

text \<open>Modelled from the spec: the type variants are declared outside expr.go. The
  spec lists Basic, Named (with its underlying type), Pointer, Array (element and
  length, -1 for a length still to be inferred), Slice, Map, Channel, Struct,
  Interface (method set), Signature and Tuple. \<open>NilType\<close> is Go's \<^verbatim>\<open>nil\<close>
  as a \<^verbatim>\<open>Type\<close>: the underlying type of a named type left unresolved by an
  earlier error.\<close>

datatype Type =
    Basic BasicKind
  | Named string Type
  | Pointer Type
  | Array Type int64
  | Slice Type
  | Map Type Type
  | Chan Type
  | Struct "Type list"
  | Interface "string list"
  | Signature
  | Tuple "Type list"
  | NilType

text \<open>Modelled from the spec: \<^verbatim>\<open>Underlying\<close> is the type a named type stands
  for, and the type itself otherwise.\<close>

fun Underlying :: "Type \<Rightarrow> Type" where
  "Underlying (Named n u) = u"
| "Underlying t = t"

text \<open>Modelled from the spec: the predicates on types of predicates.go look at the
  underlying basic kind (integer kinds, the unsigned ones among them, numeric kinds,
  strings, booleans, and the untyped default kinds).\<close>

definition integer_kinds :: "BasicKind set" where
  "integer_kinds = {IntKind, Int8, Int16, Int32, Int64, Uint, Uint8, Uint16, Uint32, Uint64,
     Uintptr, UntypedInt, UntypedRune}"

definition numeric_kinds :: "BasicKind set" where
  "numeric_kinds = integer_kinds \<union>
     {Float32, Float64, Complex64, Complex128, UntypedFloat, UntypedComplex}"

definition untyped_kinds :: "BasicKind set" where
  "untyped_kinds = {UntypedBool, UntypedInt, UntypedRune, UntypedFloat, UntypedComplex,
     UntypedString, UntypedNil}"

definition has_kind :: "BasicKind set \<Rightarrow> Type \<Rightarrow> bool" where
  "has_kind K t = (case Underlying t of Basic k \<Rightarrow> k \<in> K | _ \<Rightarrow> False)"

definition isBoolean :: "Type \<Rightarrow> bool" where
  "isBoolean = has_kind {Bool, UntypedBool}"

definition isInteger :: "Type \<Rightarrow> bool" where
  "isInteger = has_kind integer_kinds"

definition isUnsigned :: "Type \<Rightarrow> bool" where
  "isUnsigned = has_kind unsigned_kinds"

definition isNumeric :: "Type \<Rightarrow> bool" where
  "isNumeric = has_kind numeric_kinds"

definition isString :: "Type \<Rightarrow> bool" where
  "isString = has_kind {String, UntypedString}"

definition isUntyped :: "Type \<Rightarrow> bool" where
  "isUntyped = has_kind untyped_kinds"

text \<open>Modelled from the spec: the position of a kind in the enumeration, by which
  \<^verbatim>\<open>convertUntyped\<close> compares untyped kinds (the numeric rank).\<close>

fun kind_rank :: "BasicKind \<Rightarrow> nat" where
  "kind_rank Invalid = 0"
| "kind_rank Bool = 1"
| "kind_rank IntKind = 2"
| "kind_rank Int8 = 3"
| "kind_rank Int16 = 4"
| "kind_rank Int32 = 5"
| "kind_rank Int64 = 6"
| "kind_rank Uint = 7"
| "kind_rank Uint8 = 8"
| "kind_rank Uint16 = 9"
| "kind_rank Uint32 = 10"
| "kind_rank Uint64 = 11"
| "kind_rank Uintptr = 12"
| "kind_rank Float32 = 13"
| "kind_rank Float64 = 14"
| "kind_rank Complex64 = 15"
| "kind_rank Complex128 = 16"
| "kind_rank String = 17"
| "kind_rank UnsafePointer = 18"
| "kind_rank UntypedBool = 19"
| "kind_rank UntypedInt = 20"
| "kind_rank UntypedRune = 21"
| "kind_rank UntypedFloat = 22"
| "kind_rank UntypedComplex = 23"
| "kind_rank UntypedString = 24"
| "kind_rank UntypedNil = 25"

text \<open>Modelled from the spec: after conversion both operand types must be
  structurally identical.\<close>

definition IsIdentical :: "Type \<Rightarrow> Type \<Rightarrow> bool" where
  "IsIdentical x y = (x = y)"

subsection \<open>Syntax trees\<close>

text \<open>The operator tokens of \<^verbatim>\<open>go/token\<close> that expr.go names.\<close>

datatype Token =
    token_ADD | token_SUB | token_MUL | token_QUO | token_REM
  | token_AND | token_OR | token_XOR | token_SHL | token_SHR | token_AND_NOT
  | token_LAND | token_LOR | token_ARROW | token_NOT
  | token_EQL | token_NEQ | token_LSS | token_LEQ | token_GTR | token_GEQ
  | token_QUO_ASSIGN | token_ILLEGAL

text \<open>The expression nodes of \<^verbatim>\<open>go/ast\<close>. A node carries its identity (Go
  compares nodes as pointers; the spec calls for a stable index per node), which also
  stands for its position in diagnostics, and the children that the functions below
  descend into.\<close>

datatype Expr =
    BadExpr nat
  | Ident nat
  | Ellipsis nat
  | BasicLit nat
  | FuncLit nat
  | CompositeLit nat
  | ParenExpr nat Expr
  | SelectorExpr nat
  | IndexExpr nat
  | SliceExpr nat Expr "Expr option" "Expr option"
  | TypeAssertExpr nat
  | CallExpr nat
  | StarExpr nat
  | UnaryExpr nat Token Expr
  | BinaryExpr nat Expr Token Expr
  | KeyValueExpr nat Expr Expr
  | ArrayType nat
  | StructType nat
  | FuncType nat
  | InterfaceType nat
  | MapType nat
  | ChanType nat

fun node :: "Expr \<Rightarrow> nat" where
  "node (BadExpr n) = n"
| "node (Ident n) = n"
| "node (Ellipsis n) = n"
| "node (BasicLit n) = n"
| "node (FuncLit n) = n"
| "node (CompositeLit n) = n"
| "node (ParenExpr n X) = n"
| "node (SelectorExpr n) = n"
| "node (IndexExpr n) = n"
| "node (SliceExpr n X lo hi) = n"
| "node (TypeAssertExpr n) = n"
| "node (CallExpr n) = n"
| "node (StarExpr n) = n"
| "node (UnaryExpr n opr X) = n"
| "node (BinaryExpr n X opr Y) = n"
| "node (KeyValueExpr n k v) = n"
| "node (ArrayType n) = n"
| "node (StructType n) = n"
| "node (FuncType n) = n"
| "node (InterfaceType n) = n"
| "node (MapType n) = n"
| "node (ChanType n) = n"

definition isShift :: "Token \<Rightarrow> bool" where
  "isShift opr = (opr = token_SHL \<or> opr = token_SHR)"

definition isComparison :: "Token \<Rightarrow> bool" where
  "isComparison opr =
    (case opr of
       token_EQL \<Rightarrow> True | token_NEQ \<Rightarrow> True | token_LSS \<Rightarrow> True
     | token_LEQ \<Rightarrow> True | token_GTR \<Rightarrow> True | token_GEQ \<Rightarrow> True
     | _ \<Rightarrow> False)"

subsection \<open>Operands and the checker's state\<close>

datatype operandMode =
    invalid | novalue | typexprn | typexpr | "constant" | variable | "value" | valueok

text \<open>An operand: \<^verbatim>\<open>val\<close> is Go's \<^verbatim>\<open>nil\<close> (\<open>None\<close>) unless a constant
  value was stored.\<close>

record operand =
  mode :: operandMode
  expr :: Expr
  "typ" :: Type
  val :: "Value option"

definition pos :: "operand \<Rightarrow> nat" where
  "pos x = node (expr x)"

text \<open>Modelled from the spec: \<^verbatim>\<open>isNil\<close> holds of the constant \<^verbatim>\<open>nil\<close>.\<close>

definition isNil :: "operand \<Rightarrow> bool" where
  "isNil x = (mode x = constant \<and> (case val x of Some v \<Rightarrow> Kind v = exact_Nil | None \<Rightarrow> False))"

text \<open>An entry of the table of untyped expressions
  (\<^verbatim>\<open>exprInfo{isLhs, typ, val}\<close>; a \<^verbatim>\<open>*Basic\<close> is given by its kind).\<close>

record exprInfo =
  isLhs :: bool
  info_typ :: BasicKind
  info_val :: "Value option"

text \<open>Diagnostics, with the node whose position they name and the message format.\<close>

datatype diagnostic =
    Error nat string
  | InvalidOp nat string
  | InvalidAST nat string
  | InvalidArg nat string

text \<open>The state of a checker that expr.go reads and writes: the table
  \<^verbatim>\<open>check.untyped\<close>, the diagnostics reported so far, and the calls made to the
  callback \<^verbatim>\<open>Context.Expr\<close> (node, type, value).\<close>

record checker =
  untyped :: "nat \<rightharpoonup> exprInfo"
  errors :: "diagnostic list"
  notified :: "(nat \<times> Type \<times> Value option) list"

text \<open>Modelled from the spec: a diagnostic is added to those accumulated, and
  checking continues.\<close>

definition errorf :: "nat \<Rightarrow> string \<Rightarrow> checker \<Rightarrow> checker" where
  "errorf p msg s = s\<lparr>errors := errors s @ [Error p msg]\<rparr>"

definition invalidOp :: "nat \<Rightarrow> string \<Rightarrow> checker \<Rightarrow> checker" where
  "invalidOp p msg s = s\<lparr>errors := errors s @ [InvalidOp p msg]\<rparr>"

definition invalidAST :: "nat \<Rightarrow> string \<Rightarrow> checker \<Rightarrow> checker" where
  "invalidAST p msg s = s\<lparr>errors := errors s @ [InvalidAST p msg]\<rparr>"

definition invalidArg :: "nat \<Rightarrow> string \<Rightarrow> checker \<Rightarrow> checker" where
  "invalidArg p msg s = s\<lparr>errors := errors s @ [InvalidArg p msg]\<rparr>"

text \<open>A run of the checker ends in a panic (\<^verbatim>\<open>unreachable()\<close>, a failed type
  assertion, a method call on \<^verbatim>\<open>nil\<close>) or returns.\<close>

datatype panic = Unreachable | FailedTypeAssertion | NilDereference

definition thenP :: "panic + 'a \<Rightarrow> ('a \<Rightarrow> panic + 'b) \<Rightarrow> panic + 'b" where
  "thenP m f = (case m of Inl p \<Rightarrow> Inl p | Inr a \<Rightarrow> f a)"

text \<open>What expr.go calls and does not define, taken as parameters: the context; the
  constant \<^verbatim>\<open>debug\<close>; \<^verbatim>\<open>defaultType\<close> and the predicates of the
  comparison rule; the operators of package \<^verbatim>\<open>exact\<close> that fold constants; and
  \<^verbatim>\<open>check.assignment\<close>. \<^verbatim>\<open>check.expr\<close> and \<^verbatim>\<open>check.exprWithHint\<close>
  are defined in expr.go on top of \<^verbatim>\<open>expr0\<close>, which dispatches to the rest of
  the package for identifiers, calls, selectors and types; the functions below take
  them as parameters where they check a sub-expression, and hold for whatever they
  return.\<close>

record pkg =
  check_ctxt :: Context
  debug :: bool
  defaultType :: "Type \<Rightarrow> Type"
  isAssignableTo :: "operand \<Rightarrow> Type \<Rightarrow> bool"
  isComparable :: "Type \<Rightarrow> bool"
  hasNil :: "Type \<Rightarrow> bool"
  isOrdered :: "Type \<Rightarrow> bool"
  exact_Compare :: "Value \<Rightarrow> Token \<Rightarrow> Value \<Rightarrow> bool"
  exact_Shift :: "Value \<Rightarrow> Token \<Rightarrow> uint \<Rightarrow> Value"
  exact_BinaryOp :: "Value \<Rightarrow> Token \<Rightarrow> Value \<Rightarrow> Value"
  check_expr :: "Expr \<Rightarrow> checker \<Rightarrow> panic + (operand \<times> checker)"
  check_exprWithHint :: "Expr \<Rightarrow> Type \<Rightarrow> checker \<Rightarrow> panic + (operand \<times> checker)"
  check_assignment :: "operand \<Rightarrow> Type \<Rightarrow> checker \<Rightarrow> panic + (bool \<times> operand \<times> checker)"

subsection \<open>isRepresentable\<close>

text \<open>\<^verbatim>\<open>check.isRepresentable(x, typ)\<close>, the basic type given by its kind.\<close>

definition isRepresentable ::
  "pkg \<Rightarrow> operand \<Rightarrow> BasicKind \<Rightarrow> checker \<Rightarrow> panic + (operand \<times> checker)" where
  "isRepresentable p x k s =
    (if mode x \<noteq> constant \<or> isUntyped (Basic k) then Inr (x, s)
     else
       (case val x of
          None \<Rightarrow> Inl NilDereference
        | Some v \<Rightarrow>
            if \<not> isRepresentableConst v (check_ctxt p) k then
              (let msg = (if isNumeric (typ x) \<and> isNumeric (Basic k)
                          then ''%s overflows (or cannot be accurately represented as) %s''
                          else ''cannot convert %s to %s'')
               in Inr (x\<lparr>mode := invalid\<rparr>, errorf (pos x) msg s))
            else Inr (x, s)))"

subsection \<open>updateExprType\<close>

text \<open>The kinds of nodes that are never untyped: with \<^verbatim>\<open>debug\<close> set the function
  dumps and calls \<^verbatim>\<open>unreachable()\<close>, otherwise it returns at once (\<open>None\<close>).\<close>

definition never_untyped :: "pkg \<Rightarrow> panic + checker option" where
  "never_untyped p = (if debug p then Inl Unreachable else Inr None)"

text \<open>The part of \<^verbatim>\<open>updateExprType\<close> after the switch over the node: with a type
  that is still untyped and not final only the recorded type changes; otherwise the
  entry is deleted, the left operand of a shift must have got an integer type, and the
  callback, if there is one, is told the final type.\<close>

definition updateExprType_record ::
  "pkg \<Rightarrow> Expr \<Rightarrow> exprInfo \<Rightarrow> Type \<Rightarrow> bool \<Rightarrow> checker \<Rightarrow> panic + checker" where
  "updateExprType_record p x old t final s =
    (if \<not> final \<and> isUntyped t then
       (case Underlying t of
          Basic k \<Rightarrow> Inr (s\<lparr>untyped := (untyped s)(node x \<mapsto> old\<lparr>info_typ := k\<rparr>)\<rparr>)
        | _ \<Rightarrow> Inl FailedTypeAssertion)
     else
       (let s1 = s\<lparr>untyped := (untyped s)(node x := None)\<rparr> in
        if isLhs old \<and> \<not> isInteger t then
          Inr (invalidOp (node x) ''shifted operand %s (type %s) must be integer'' s1)
        else if has_Expr (check_ctxt p) then
          Inr (s1\<lparr>notified := notified s1 @ [(node x, t, info_val old)]\<rparr>)
        else Inr s1))"

text \<open>\<^verbatim>\<open>check.updateExprType(x, typ, final)\<close>. The switch gives \<open>None\<close> where
  the function returns inside it, and the state after the operands were updated
  otherwise; the \<^verbatim>\<open>default\<close> case (an ellipsis) is \<^verbatim>\<open>unreachable()\<close>.\<close>

fun updateExprType :: "pkg \<Rightarrow> Expr \<Rightarrow> Type \<Rightarrow> bool \<Rightarrow> checker \<Rightarrow> panic + checker" where
  "updateExprType p x t final s =
    (case untyped s (node x) of
       None \<Rightarrow> Inr s
     | Some old \<Rightarrow>
         (case
            (case x of
               BadExpr n \<Rightarrow> never_untyped p
             | FuncLit n \<Rightarrow> never_untyped p
             | CompositeLit n \<Rightarrow> never_untyped p
             | IndexExpr n \<Rightarrow> never_untyped p
             | SliceExpr n X lo hi \<Rightarrow> never_untyped p
             | TypeAssertExpr n \<Rightarrow> never_untyped p
             | StarExpr n \<Rightarrow> never_untyped p
             | KeyValueExpr n k v \<Rightarrow> never_untyped p
             | ArrayType n \<Rightarrow> never_untyped p
             | StructType n \<Rightarrow> never_untyped p
             | FuncType n \<Rightarrow> never_untyped p
             | InterfaceType n \<Rightarrow> never_untyped p
             | MapType n \<Rightarrow> never_untyped p
             | ChanType n \<Rightarrow> never_untyped p
             | CallExpr n \<Rightarrow> Inr (Some s)
             | Ident n \<Rightarrow> Inr (Some s)
             | BasicLit n \<Rightarrow> Inr (Some s)
             | SelectorExpr n \<Rightarrow> Inr (Some s)
             | ParenExpr n X \<Rightarrow>
                 (case updateExprType p X t final s of
                    Inl e \<Rightarrow> Inl e | Inr s1 \<Rightarrow> Inr (Some s1))
             | UnaryExpr n opr X \<Rightarrow>
                 if info_val old \<noteq> None then Inr (Some s)
                 else (case updateExprType p X t final s of
                         Inl e \<Rightarrow> Inl e | Inr s1 \<Rightarrow> Inr (Some s1))
             | BinaryExpr n X opr Y \<Rightarrow>
                 if info_val old \<noteq> None then Inr (Some s)
                 else if isComparison opr then Inr (Some s)
                 else if isShift opr then
                   (case updateExprType p X t final s of
                      Inl e \<Rightarrow> Inl e | Inr s1 \<Rightarrow> Inr (Some s1))
                 else
                   (case updateExprType p X t final s of
                      Inl e \<Rightarrow> Inl e
                    | Inr s1 \<Rightarrow>
                        (case updateExprType p Y t final s1 of
                           Inl e \<Rightarrow> Inl e | Inr s2 \<Rightarrow> Inr (Some s2)))
             | Ellipsis n \<Rightarrow> Inl Unreachable)
          of
            Inl e \<Rightarrow> Inl e
          | Inr None \<Rightarrow> Inr s
          | Inr (Some s1) \<Rightarrow> updateExprType_record p x old t final s1))"

declare updateExprType.simps [simp del]

subsection \<open>convertUntyped\<close>

text \<open>The label \<^verbatim>\<open>Error\<close> of \<^verbatim>\<open>convertUntyped\<close>.\<close>

definition convertUntyped_Error :: "operand \<Rightarrow> checker \<Rightarrow> operand \<times> checker" where
  "convertUntyped_Error x s =
    (x\<lparr>mode := invalid\<rparr>, errorf (pos x) ''cannot convert %s to %s'' s)"

text \<open>The end of \<^verbatim>\<open>convertUntyped\<close>: the operand gets the target type, which is
  final.\<close>

definition convertUntyped_final ::
  "pkg \<Rightarrow> operand \<Rightarrow> Type \<Rightarrow> checker \<Rightarrow> panic + (operand \<times> checker)" where
  "convertUntyped_final p x target s =
    thenP (updateExprType p (expr x) target True s) (\<lambda>s1. Inr (x\<lparr>typ := target\<rparr>, s1))"

text \<open>\<^verbatim>\<open>check.convertUntyped(x, target)\<close>. The kinds of two untyped types are read
  with type assertions to \<^verbatim>\<open>*Basic\<close> on the types themselves.\<close>

definition convertUntyped ::
  "pkg \<Rightarrow> operand \<Rightarrow> Type \<Rightarrow> checker \<Rightarrow> panic + (operand \<times> checker)" where
  "convertUntyped p x target s =
    (if mode x = invalid \<or> \<not> isUntyped (typ x) then Inr (x, s)
     else if isUntyped target then
       (case (typ x, target) of
          (Basic xkind, Basic tkind) \<Rightarrow>
            if isNumeric (typ x) \<and> isNumeric target then
              (if kind_rank xkind < kind_rank tkind then
                 thenP (updateExprType p (expr x) target False s)
                   (\<lambda>s1. Inr (x\<lparr>typ := target\<rparr>, s1))
               else Inr (x, s))
            else if xkind \<noteq> tkind then Inr (convertUntyped_Error x s)
            else Inr (x, s)
        | _ \<Rightarrow> Inl FailedTypeAssertion)
     else
       (case Underlying target of
          NilType \<Rightarrow> Inr (x\<lparr>mode := invalid\<rparr>, s)
        | Basic k \<Rightarrow>
            thenP (isRepresentable p x k s)
              (\<lambda>(x1, s1). if mode x1 = invalid then Inr (x1, s1)
                          else convertUntyped_final p x1 target s1)
        | Interface ms \<Rightarrow>
            if \<not> isNil x \<and> ms \<noteq> [] then Inr (convertUntyped_Error x s)
            else if isNil x then convertUntyped_final p x (Basic UntypedNil) s
            else if ms \<noteq> [] then Inr (convertUntyped_Error x s)
            else convertUntyped_final p x (defaultType p (typ x)) s
        | Pointer b \<Rightarrow>
            if \<not> isNil x then Inr (convertUntyped_Error x s)
            else convertUntyped_final p x (Basic UntypedNil) s
        | Signature \<Rightarrow>
            if \<not> isNil x then Inr (convertUntyped_Error x s)
            else convertUntyped_final p x (Basic UntypedNil) s
        | Slice e \<Rightarrow>
            if \<not> isNil x then Inr (convertUntyped_Error x s)
            else convertUntyped_final p x (Basic UntypedNil) s
        | Map k e \<Rightarrow>
            if \<not> isNil x then Inr (convertUntyped_Error x s)
            else convertUntyped_final p x (Basic UntypedNil) s
        | Chan e \<Rightarrow>
            if \<not> isNil x then Inr (convertUntyped_Error x s)
            else convertUntyped_final p x (Basic UntypedNil) s
        | _ \<Rightarrow> Inr (convertUntyped_Error x s)))"

subsection \<open>comparison\<close>

text \<open>Modelled from the spec: \<^verbatim>\<open>exact.MakeBool\<close> is the boolean value.\<close>

definition MakeBool :: "bool \<Rightarrow> Value" where
  "MakeBool b = boolVal b"

text \<open>The validity test that opens \<^verbatim>\<open>comparison\<close>; an operator that is not a
  comparison is \<^verbatim>\<open>unreachable()\<close>.\<close>

definition comparison_valid :: "pkg \<Rightarrow> operand \<Rightarrow> operand \<Rightarrow> Token \<Rightarrow> panic + bool" where
  "comparison_valid p x y opr =
    (if isAssignableTo p x (typ y) \<or> isAssignableTo p y (typ x) then
       (case opr of
          token_EQL \<Rightarrow>
            Inr (isComparable p (typ x) \<or> isNil x \<and> hasNil p (typ y) \<or> isNil y \<and> hasNil p (typ x))
        | token_NEQ \<Rightarrow>
            Inr (isComparable p (typ x) \<or> isNil x \<and> hasNil p (typ y) \<or> isNil y \<and> hasNil p (typ x))
        | token_LSS \<Rightarrow> Inr (isOrdered p (typ x))
        | token_LEQ \<Rightarrow> Inr (isOrdered p (typ x))
        | token_GTR \<Rightarrow> Inr (isOrdered p (typ x))
        | token_GEQ \<Rightarrow> Inr (isOrdered p (typ x))
        | _ \<Rightarrow> Inl Unreachable)
     else Inr False)"

text \<open>\<^verbatim>\<open>check.comparison(x, y, op)\<close>.\<close>

definition comparison ::
  "pkg \<Rightarrow> operand \<Rightarrow> operand \<Rightarrow> Token \<Rightarrow> checker \<Rightarrow> panic + (operand \<times> checker)" where
  "comparison p x y opr s =
    thenP (comparison_valid p x y opr)
      (\<lambda>valid.
        if \<not> valid then
          Inr (x\<lparr>mode := invalid\<rparr>, invalidOp (pos x) ''cannot compare %s %s %s'' s)
        else
          thenP
            (if mode x = constant \<and> mode y = constant then
               (case (val x, val y) of
                  (Some a, Some b) \<Rightarrow>
                    Inr (x\<lparr>val := Some (MakeBool (exact_Compare p a opr b))\<rparr>, s)
                | _ \<Rightarrow> Inl NilDereference)
             else
               thenP (updateExprType p (expr x) (defaultType p (typ x)) True s)
                 (\<lambda>s1. thenP (updateExprType p (expr y) (defaultType p (typ y)) True s1)
                   (\<lambda>s2. Inr (x\<lparr>mode := value\<rparr>, s2))))
            (\<lambda>(x1, s1). Inr (x1\<lparr>typ := Basic UntypedBool\<rparr>, s1)))"

subsection \<open>shift\<close>

text \<open>The first test of \<^verbatim>\<open>shift\<close>: the left operand is neither of integer type nor
  an untyped value representable as an integer. The context passed to
  \<^verbatim>\<open>isRepresentableConst\<close> is \<^verbatim>\<open>nil\<close> in the source and is not consulted for
  the target \<^verbatim>\<open>UntypedInt\<close>.\<close>

definition shift_lhs_bad :: "pkg \<Rightarrow> operand \<Rightarrow> panic + bool" where
  "shift_lhs_bad p x =
    (if \<not> isInteger (typ x) then
       (if \<not> isUntyped (typ x) then Inr True
        else (case val x of
                None \<Rightarrow> Inl NilDereference
              | Some v \<Rightarrow> Inr (\<not> isRepresentableConst v (check_ctxt p) UntypedInt)))
     else Inr False)"

text \<open>The switch over the right operand: \<open>(True, y, s)\<close> where the shift goes on,
  \<open>(False, y, s)\<close> where it was rejected.\<close>

definition shift_count ::
  "pkg \<Rightarrow> operand \<Rightarrow> checker \<Rightarrow> panic + (bool \<times> operand \<times> checker)" where
  "shift_count p y s =
    (if isInteger (typ y) \<and> isUnsigned (typ y) then Inr (True, y, s)
     else if isUntyped (typ y) then
       thenP (convertUntyped p y (Basic UntypedInt) s)
         (\<lambda>(y1, s1). Inr (mode y1 \<noteq> invalid, y1, s1))
     else Inr (False, y, invalidOp (pos y) ''shift count %s must be unsigned integer'' s))"

text \<open>The bound on constant shift counts (\<^verbatim>\<open>const stupidShift = 1024\<close>).\<close>

definition stupidShift :: uint where
  "stupidShift = 1024"

text \<open>The rest of \<^verbatim>\<open>shift\<close>, from \<^verbatim>\<open>if x.mode == constant\<close> on.\<close>

definition shift_operands ::
  "pkg \<Rightarrow> bool \<Rightarrow> operand \<Rightarrow> operand \<Rightarrow> Token \<Rightarrow> checker \<Rightarrow> panic + (operand \<times> checker)" where
  "shift_operands p untypedx x y opr s =
    (if mode x = constant \<and> mode y = constant then
       (let x1 = (if untypedx then x\<lparr>typ := Basic UntypedInt\<rparr> else x) in
        case val y of
          None \<Rightarrow> Inl NilDereference
        | Some c \<Rightarrow>
            (let (n, ok) = Uint64Val c in
             if \<not> ok \<or> n \<ge> stupidShift then
               Inr (x1\<lparr>mode := invalid\<rparr>, invalidOp (pos y) ''%s: stupid shift'' s)
             else
               (case val x1 of
                  None \<Rightarrow> Inl NilDereference
                | Some v \<Rightarrow> Inr (x1\<lparr>val := Some (exact_Shift p v opr n)\<rparr>, s))))
     else if mode x = constant \<and> untypedx then
       (case untyped s (node (expr x)) of
          Some info \<Rightarrow>
            Inr (x\<lparr>mode := value\<rparr>,
                 s\<lparr>untyped := (untyped s)(node (expr x) \<mapsto> info\<lparr>isLhs := True\<rparr>)\<rparr>)
        | None \<Rightarrow> Inl Unreachable)
     else if \<not> isInteger (typ x) then
       Inr (x\<lparr>mode := invalid\<rparr>, invalidOp (pos x) ''shifted operand %s must be integer'' s)
     else Inr (x\<lparr>mode := value\<rparr>, s))"

text \<open>\<^verbatim>\<open>check.shift(x, y, op)\<close>.\<close>

definition shift ::
  "pkg \<Rightarrow> operand \<Rightarrow> operand \<Rightarrow> Token \<Rightarrow> checker \<Rightarrow> panic + (operand \<times> checker)" where
  "shift p x y opr s =
    (let untypedx = isUntyped (typ x) in
     thenP (shift_lhs_bad p x)
       (\<lambda>bad.
         if bad then
           Inr (x\<lparr>mode := invalid\<rparr>, invalidOp (pos x) ''shifted operand %s must be integer'' s)
         else
           thenP (shift_count p y s)
             (\<lambda>(ok, y1, s1).
               if \<not> ok then Inr (x\<lparr>mode := invalid\<rparr>, s1)
               else shift_operands p untypedx x y1 opr s1)))"

subsection \<open>binary\<close>

text \<open>\<^verbatim>\<open>binaryOpPredicates\<close>: for each binary operator the types it applies to.\<close>

definition binaryOpPredicates :: "Token \<Rightarrow> (Type \<Rightarrow> bool) option" where
  "binaryOpPredicates opr =
    (case opr of
       token_ADD \<Rightarrow> Some (\<lambda>t. isNumeric t \<or> isString t)
     | token_SUB \<Rightarrow> Some isNumeric
     | token_MUL \<Rightarrow> Some isNumeric
     | token_QUO \<Rightarrow> Some isNumeric
     | token_REM \<Rightarrow> Some isInteger
     | token_AND \<Rightarrow> Some isInteger
     | token_OR \<Rightarrow> Some isInteger
     | token_XOR \<Rightarrow> Some isInteger
     | token_AND_NOT \<Rightarrow> Some isInteger
     | token_LAND \<Rightarrow> Some isBoolean
     | token_LOR \<Rightarrow> Some isBoolean
     | _ \<Rightarrow> None)"

text \<open>\<^verbatim>\<open>check.op(m, x, op)\<close>.\<close>

definition check_op ::
  "(Token \<Rightarrow> (Type \<Rightarrow> bool) option) \<Rightarrow> operand \<Rightarrow> Token \<Rightarrow> checker \<Rightarrow> bool \<times> checker" where
  "check_op m x opr s =
    (case m opr of
       Some pred \<Rightarrow>
         if \<not> pred (typ x) then
           (False, invalidOp (pos x) ''operator %s not defined for %s'' s)
         else (True, s)
     | None \<Rightarrow> (False, invalidAST (pos x) ''unknown operator %s'' s))"

text \<open>The test for a constant zero divisor; \<^verbatim>\<open>exact.Sign\<close> is applied to the
  value of a constant.\<close>

definition zero_divisor :: "operand \<Rightarrow> Token \<Rightarrow> panic + bool" where
  "zero_divisor y opr =
    (if (opr = token_QUO \<or> opr = token_REM) \<and> mode y = constant then
       (case val y of None \<Rightarrow> Inl NilDereference | Some v \<Rightarrow> Inr (Sign v = 0))
     else Inr False)"

text \<open>The constant folding that ends \<^verbatim>\<open>binary\<close>.\<close>

definition binary_fold ::
  "pkg \<Rightarrow> operand \<Rightarrow> operand \<Rightarrow> Token \<Rightarrow> checker \<Rightarrow> panic + (operand \<times> checker)" where
  "binary_fold p x y opr s =
    (case Underlying (typ x) of
       Basic k \<Rightarrow>
         (let opr1 = (if opr = token_QUO \<and> isInteger (Basic k) then token_QUO_ASSIGN else opr) in
          case (val x, val y) of
            (Some a, Some b) \<Rightarrow>
              isRepresentable p (x\<lparr>val := Some (exact_BinaryOp p a opr1 b)\<rparr>) k s
          | _ \<Rightarrow> Inl NilDereference)
     | _ \<Rightarrow> Inl FailedTypeAssertion)"

text \<open>The end of \<^verbatim>\<open>check.binary\<close>, for an operator that is neither a shift nor a
  comparison, from the test of the operand types on.\<close>

definition binary_arith ::
  "pkg \<Rightarrow> operand \<Rightarrow> operand \<Rightarrow> Token \<Rightarrow> checker \<Rightarrow> panic + (operand \<times> checker)" where
  "binary_arith p x y opr s =
    (if \<not> IsIdentical (typ x) (typ y) then
       Inr (x\<lparr>mode := invalid\<rparr>,
            if typ x \<noteq> Basic Invalid \<and> typ y \<noteq> Basic Invalid
            then invalidOp (pos x) ''mismatched types %s and %s'' s
            else s)
     else
       (case check_op binaryOpPredicates x opr s of
          (ok, s1) \<Rightarrow>
            if \<not> ok then Inr (x\<lparr>mode := invalid\<rparr>, s1)
            else
              thenP (zero_divisor y opr)
                (\<lambda>zero.
                  if zero then
                    Inr (x\<lparr>mode := invalid\<rparr>, invalidOp (pos y) ''division by zero'' s1)
                  else if mode x = constant \<and> mode y = constant then
                    binary_fold p x y opr s1
                  else Inr (x\<lparr>mode := value\<rparr>, s1))))"

text \<open>\<^verbatim>\<open>check.binary\<close> from the test of the two operands on: \<open>x\<close> and \<open>y\<close> are
  the operands that \<^verbatim>\<open>check.expr\<close> gave for the two sides.\<close>

definition binary_operands ::
  "pkg \<Rightarrow> operand \<Rightarrow> operand \<Rightarrow> Token \<Rightarrow> checker \<Rightarrow> panic + (operand \<times> checker)" where
  "binary_operands p x y opr s =
    (if mode x = invalid then Inr (x, s)
     else if mode y = invalid then Inr (x\<lparr>mode := invalid, expr := expr y\<rparr>, s)
     else if isShift opr then shift p x y opr s
     else
       thenP (convertUntyped p x (typ y) s)
         (\<lambda>(x1, s1).
           if mode x1 = invalid then Inr (x1, s1)
           else
             thenP (convertUntyped p y (typ x1) s1)
               (\<lambda>(y1, s2).
                 if mode y1 = invalid then Inr (x1\<lparr>mode := invalid\<rparr>, s2)
                 else if isComparison opr then comparison p x1 y1 opr s2
                 else binary_arith p x1 y1 opr s2)))"

text \<open>\<^verbatim>\<open>check.binary(x, lhs, rhs, op)\<close>.\<close>

definition binary ::
  "pkg \<Rightarrow> Expr \<Rightarrow> Expr \<Rightarrow> Token \<Rightarrow> checker \<Rightarrow> panic + (operand \<times> checker)" where
  "binary p lhs rhs opr s =
    thenP (check_expr p lhs s)
      (\<lambda>(x, s1). thenP (check_expr p rhs s1)
        (\<lambda>(y, s2). binary_operands p x y opr s2))"

subsection \<open>index and indexedElts\<close>

text \<open>\<^verbatim>\<open>check.index(arg, length)\<close>, with the results \<^verbatim>\<open>(i, ok)\<close>; a plain
  \<^verbatim>\<open>return\<close> gives the zero values \<^verbatim>\<open>(0, false)\<close>.\<close>

definition index ::
  "pkg \<Rightarrow> Expr \<Rightarrow> int64 \<Rightarrow> checker \<Rightarrow> panic + ((int64 \<times> bool) \<times> checker)" where
  "index p arg len s =
    thenP (check_expr p arg s)
      (\<lambda>(x0, s0). thenP (convertUntyped p x0 (Basic IntKind) s0)
        (\<lambda>(x, s1).
          if mode x = invalid then Inr ((0, False), s1)
          else if \<not> isInteger (typ x) then
            Inr ((0, False), invalidArg (pos x) ''%s must be integer'' s1)
          else if mode x = constant then
            (case val x of
               None \<Rightarrow> Inl NilDereference
             | Some v \<Rightarrow>
                 if Sign v < 0 then
                   Inr ((0, False), invalidArg (pos x) ''%s must not be negative'' s1)
                 else
                   (let (i, ok) = Int64Val v in
                    if \<not> ok \<or> (0 \<le> sint len \<and> sint len \<le> sint i) then
                      Inr ((i, False), errorf (pos x) ''index %s is out of bounds'' s1)
                    else Inr ((i, True), s1)))
          else Inr ((- 1, True), s1)))"

text \<open>The body of the loop of \<^verbatim>\<open>indexedElts\<close> for one element \<open>e\<close>. The loop's
  variables are the set \<^verbatim>\<open>visited\<close>, \<^verbatim>\<open>index\<close> and \<^verbatim>\<open>max\<close>;
  \<^verbatim>\<open>index++\<close> is an \<^verbatim>\<open>int64\<close> addition.\<close>

definition indexedElt ::
  "pkg \<Rightarrow> Type \<Rightarrow> int64 \<Rightarrow> Expr \<Rightarrow> int64 set \<times> int64 \<times> int64 \<Rightarrow> checker
    \<Rightarrow> panic + ((int64 set \<times> int64 \<times> int64) \<times> checker)" where
  "indexedElt p t len e st s =
    (case st of (visited, idx, mx) \<Rightarrow>
      thenP
        (case e of
           KeyValueExpr n k v \<Rightarrow>
             thenP (index p k len s)
               (\<lambda>((i, ok), s1). Inr (ok, (if ok \<and> 0 \<le> sint i then i else idx), v, s1))
         | _ \<Rightarrow>
             if 0 \<le> sint len \<and> sint len \<le> sint idx then
               Inr (False, idx, e, errorf (node e) ''index %d is out of bounds (>= %d)'' s)
             else Inr (True, idx, e, s))
        (\<lambda>(validIndex, idx1, ev, s1).
          let s2 = (if validIndex \<and> idx1 \<in> visited
                    then errorf (node e) ''duplicate index %d in array or slice literal'' s1
                    else s1);
              visited1 = (if validIndex then insert idx1 visited else visited);
              idx2 = idx1 + 1;
              mx1 = (if sint mx < sint idx2 then idx2 else mx)
          in thenP (check_exprWithHint p ev t s2)
               (\<lambda>(x, s3). thenP (check_assignment p x t s3)
                 (\<lambda>(ok, x1, s4).
                   Inr ((visited1, idx2, mx1),
                        if \<not> ok \<and> mode x1 \<noteq> invalid
                        then errorf (pos x1) ''cannot use %s as %s value in array or slice literal'' s4
                        else s4)))))"

fun indexedElts_loop ::
  "pkg \<Rightarrow> Type \<Rightarrow> int64 \<Rightarrow> Expr list \<Rightarrow> int64 set \<times> int64 \<times> int64 \<Rightarrow> checker
    \<Rightarrow> panic + ((int64 set \<times> int64 \<times> int64) \<times> checker)" where
  "indexedElts_loop p t len [] st s = Inr (st, s)"
| "indexedElts_loop p t len (e # es) st s =
    (case indexedElt p t len e st s of
       Inl err \<Rightarrow> Inl err
     | Inr (st1, s1) \<Rightarrow> indexedElts_loop p t len es st1 s1)"

text \<open>\<^verbatim>\<open>check.indexedElts(elts, typ, length)\<close>: the result is \<^verbatim>\<open>max\<close>.\<close>

definition indexedElts ::
  "pkg \<Rightarrow> Expr list \<Rightarrow> Type \<Rightarrow> int64 \<Rightarrow> checker \<Rightarrow> panic + (int64 \<times> checker)" where
  "indexedElts p elts t len s =
    thenP (indexedElts_loop p t len elts ({}, 0, 0) s)
      (\<lambda>((visited, idx, mx), s1). Inr (mx, s1))"

subsection \<open>expr0: map literals, slice expressions, binary expressions\<close>

text \<open>The label \<^verbatim>\<open>Error\<close> of \<^verbatim>\<open>expr0\<close>.\<close>

definition expr0_Error :: "Expr \<Rightarrow> operand \<Rightarrow> operand" where
  "expr0_Error e x = x\<lparr>mode := invalid, expr := e\<rparr>"

text \<open>The body of the loop over the elements of a map literal (\<^verbatim>\<open>case *Map\<close> of
  the composite literals) for one element \<open>e\<close>; \<open>key\<close> and \<open>elt\<close> are the key and
  element types of the map type. The loop's variables are the set \<^verbatim>\<open>visited\<close>
  (keyed by \<^verbatim>\<open>x.val\<close>) and the operand \<^verbatim>\<open>x\<close>.\<close>

definition mapElt ::
  "pkg \<Rightarrow> Type \<Rightarrow> Type \<Rightarrow> Expr \<Rightarrow> Value option set \<times> operand \<Rightarrow> checker
    \<Rightarrow> panic + ((Value option set \<times> operand) \<times> checker)" where
  "mapElt p key elt e st s =
    (case st of (visited, x) \<Rightarrow>
      (case e of
         KeyValueExpr n k v \<Rightarrow>
           thenP (check_expr p k s)
             (\<lambda>(x1, s1). thenP (check_assignment p x1 key s1)
               (\<lambda>(ok, x2, s2).
                 if \<not> ok then
                   Inr ((visited, x2),
                        if mode x2 \<noteq> invalid
                        then errorf (pos x2) ''cannot use %s as %s key in map literal'' s2
                        else s2)
                 else if mode x2 = constant \<and> val x2 \<in> visited then
                   Inr ((visited, x2), errorf (pos x2) ''duplicate key %s in map literal'' s2)
                 else
                   (let visited1 = (if mode x2 = constant then insert (val x2) visited
                                    else visited)
                    in thenP (check_exprWithHint p v elt s2)
                         (\<lambda>(x3, s3). thenP (check_assignment p x3 elt s3)
                           (\<lambda>(ok1, x4, s4).
                             Inr ((visited1, x4),
                                  if \<not> ok1 \<and> mode x4 \<noteq> invalid
                                  then errorf (pos x4) ''cannot use %s as %s value in map literal'' s4
                                  else s4))))))
       | _ \<Rightarrow> Inr ((visited, x), errorf (node e) ''missing key in map literal'' s)))"

fun mapElts ::
  "pkg \<Rightarrow> Type \<Rightarrow> Type \<Rightarrow> Expr list \<Rightarrow> Value option set \<times> operand \<Rightarrow> checker
    \<Rightarrow> panic + ((Value option set \<times> operand) \<times> checker)" where
  "mapElts p key elt [] st s = Inr (st, s)"
| "mapElts p key elt (e # es) st s =
    (case mapElt p key elt e st s of
       Inl err \<Rightarrow> Inl err
     | Inr (st1, s1) \<Rightarrow> mapElts p key elt es st1 s1)"

text \<open>\<^verbatim>\<open>expr0\<close> on a composite literal \<open>e\<close> with elements \<open>elts\<close> whose type
  \<open>t\<close> has the underlying type \<open>Map key elt\<close>: the operand is first made invalid,
  the elements are checked, and the operand gets the literal's type.\<close>

definition expr0_MapLit ::
  "pkg \<Rightarrow> Expr \<Rightarrow> Type \<Rightarrow> Type \<Rightarrow> Type \<Rightarrow> Expr list \<Rightarrow> operand \<Rightarrow> checker
    \<Rightarrow> panic + (operand \<times> checker)" where
  "expr0_MapLit p e t key elt elts x s =
    thenP (mapElts p key elt elts ({}, x\<lparr>mode := invalid, typ := Basic Invalid\<rparr>) s)
      (\<lambda>((visited, x1), s1). Inr (x1\<lparr>mode := value, typ := t, expr := e\<rparr>, s1))"

text \<open>Modelled from the spec: \<^verbatim>\<open>exact.StringVal\<close> is the string of a string
  value.\<close>

fun StringVal :: "Value \<Rightarrow> string" where
  "StringVal (stringVal str) = str"
| "StringVal v = []"

text \<open>The switch over the underlying type of the sliced operand: \<open>None\<close> is
  \<^verbatim>\<open>goto Error\<close>, otherwise the operand, \<^verbatim>\<open>length\<close> and \<^verbatim>\<open>valid\<close>.\<close>

definition slice_base ::
  "operand \<Rightarrow> checker \<Rightarrow> panic + ((operand \<times> int64 \<times> bool) option \<times> checker)" where
  "slice_base x s =
    (case Underlying (typ x) of
       Basic k \<Rightarrow>
         if isString (Basic k) then
           thenP (if mode x = constant then
                    (case val x of
                       None \<Rightarrow> Inl NilDereference
                     | Some v \<Rightarrow> Inr (word_of_nat (length (StringVal v)) + 1))
                  else Inr (- 1))
             (\<lambda>len. Inr (Some (x\<lparr>mode := value,
                                   typ := (if k = UntypedString then Basic String else typ x)\<rparr>,
                                len, True), s))
         else Inr (Some (x, - 1, False), s)
     | Array elt n \<Rightarrow>
         if mode x \<noteq> variable then
           Inr (None, invalidOp (pos x) ''cannot slice %s (value not addressable)'' s)
         else Inr (Some (x\<lparr>typ := Slice elt\<rparr>, n + 1, True), s)
     | Pointer b \<Rightarrow>
         (case Underlying b of
            Array elt n \<Rightarrow> Inr (Some (x\<lparr>mode := variable, typ := Slice elt\<rparr>, n + 1, True), s)
          | _ \<Rightarrow> Inr (Some (x, - 1, False), s))
     | Slice elt \<Rightarrow> Inr (Some (x\<lparr>mode := variable\<rparr>, - 1, True), s)
     | _ \<Rightarrow> Inr (Some (x, - 1, False), s))"

text \<open>The low bound \<^verbatim>\<open>lo\<close> and the high bound \<^verbatim>\<open>hi\<close> of a slice
  expression.\<close>

definition slice_lo ::
  "pkg \<Rightarrow> Expr option \<Rightarrow> int64 \<Rightarrow> checker \<Rightarrow> panic + (int64 \<times> checker)" where
  "slice_lo p low len s =
    (case low of
       None \<Rightarrow> Inr (0, s)
     | Some e \<Rightarrow>
         thenP (index p e len s)
           (\<lambda>((i, ok), s1). Inr ((if ok \<and> 0 \<le> sint i then i else 0), s1)))"

definition slice_hi ::
  "pkg \<Rightarrow> Expr option \<Rightarrow> int64 \<Rightarrow> checker \<Rightarrow> panic + (int64 \<times> checker)" where
  "slice_hi p high len s =
    (case high of
       None \<Rightarrow> Inr ((if 0 \<le> sint len then len else - 1), s)
     | Some e \<Rightarrow>
         thenP (index p e len s)
           (\<lambda>((i, ok), s1). Inr ((if ok \<and> 0 \<le> sint i then i else - 1), s1)))"

text \<open>\<^verbatim>\<open>expr0\<close> on a slice expression \<open>e\<close> with the operand \<open>X\<close> and the
  bounds \<open>low\<close> and \<open>high\<close>. The position of the error is that of
  \<^verbatim>\<open>e.Low\<close>.\<close>

definition expr0_SliceExpr ::
  "pkg \<Rightarrow> Expr \<Rightarrow> Expr \<Rightarrow> Expr option \<Rightarrow> Expr option \<Rightarrow> checker
    \<Rightarrow> panic + (operand \<times> checker)" where
  "expr0_SliceExpr p e X low high s =
    thenP (check_expr p X s)
      (\<lambda>(x, s1).
        if mode x = invalid then Inr (expr0_Error e x, s1)
        else
          thenP (slice_base x s1)
            (\<lambda>(r, s2).
              case r of
                None \<Rightarrow> Inr (expr0_Error e x, s2)
              | Some (x1, len, valid) \<Rightarrow>
                  if \<not> valid then
                    Inr (expr0_Error e x1, invalidOp (pos x1) ''cannot slice %s'' s2)
                  else
                    thenP (slice_lo p low len s2)
                      (\<lambda>(lo, s3). thenP (slice_hi p high len s3)
                        (\<lambda>(hi, s4).
                          thenP
                            (if 0 \<le> sint lo \<and> 0 \<le> sint hi \<and> sint hi < sint lo then
                               (case low of
                                  None \<Rightarrow> Inl NilDereference
                                | Some l \<Rightarrow>
                                    Inr (errorf (node l) ''inverted slice range: %d > %d'' s4))
                             else Inr s4)
                            (\<lambda>s5. Inr (x1\<lparr>expr := e\<rparr>, s5))))))"

text \<open>\<^verbatim>\<open>expr0\<close> on a binary expression \<open>e\<close> with the sides \<open>X\<close> and \<open>Y\<close>.\<close>

definition expr0_BinaryExpr ::
  "pkg \<Rightarrow> Expr \<Rightarrow> Expr \<Rightarrow> Token \<Rightarrow> Expr \<Rightarrow> checker \<Rightarrow> panic + (operand \<times> checker)" where
  "expr0_BinaryExpr p e X opr Y s =
    thenP (binary p X Y opr s)
      (\<lambda>(x, s1). if mode x = invalid then Inr (expr0_Error e x, s1)
                  else Inr (x\<lparr>expr := e\<rparr>, s1))"

text \<open>The end of \<^verbatim>\<open>rawExpr\<close>, after \<^verbatim>\<open>expr0\<close> gave the operand \<open>x\<close>: an
  untyped result is entered into the table, any other one is notified, unless the
  operand is invalid or the clients were notified before (\<^verbatim>\<open>typexprn\<close>).\<close>

definition rawExpr_record :: "Context \<Rightarrow> operand \<Rightarrow> checker \<Rightarrow> panic + (operand \<times> checker)" where
  "rawExpr_record c x s =
    (let (t, v, notify, x1) =
       (case mode x of
          invalid \<Rightarrow> (Basic Invalid, None, False, x)
        | novalue \<Rightarrow> (Tuple [], None, has_Expr c, x)
        | constant \<Rightarrow> (typ x, val x, has_Expr c, x)
        | typexprn \<Rightarrow> (typ x, None, False, x\<lparr>mode := typexpr\<rparr>)
        | _ \<Rightarrow> (typ x, None, has_Expr c, x))
     in
       if isUntyped t then
         (case t of
            Basic k \<Rightarrow>
              Inr (x1, s\<lparr>untyped := (untyped s)(node (expr x1) \<mapsto>
                              \<lparr>isLhs = False, info_typ = k, info_val = v\<rparr>)\<rparr>)
          | _ \<Rightarrow> Inl FailedTypeAssertion)
       else if notify then
         Inr (x1, s\<lparr>notified := notified s @ [(node (expr x1), t, v)]\<rparr>)
       else Inr (x1, s))"

subsection \<open>Nodes of a tree\<close>

text \<open>The identities of the nodes of an expression, the root first. In a syntax tree
  they are distinct.\<close>

fun nodes :: "Expr \<Rightarrow> nat list" where
  "nodes (ParenExpr n X) = n # nodes X"
| "nodes (UnaryExpr n opr X) = n # nodes X"
| "nodes (BinaryExpr n X opr Y) = n # nodes X @ nodes Y"
| "nodes (KeyValueExpr n k v) = n # nodes k @ nodes v"
| "nodes (SliceExpr n X lo hi) =
     n # nodes X @ (case lo of None \<Rightarrow> [] | Some l \<Rightarrow> nodes l)
       @ (case hi of None \<Rightarrow> [] | Some h \<Rightarrow> nodes h)"
| "nodes e = [node e]"

text \<open>The expressions that can be untyped, by the switch of \<^verbatim>\<open>updateExprType\<close>:
  calls, identifiers, literals and selectors, and parenthesized, unary and binary
  expressions over such operands, as far as \<^verbatim>\<open>updateExprType\<close> descends into
  them (not into the operands of a comparison, nor into the count of a shift).\<close>

fun can_be_untyped :: "Expr \<Rightarrow> bool" where
  "can_be_untyped (CallExpr n) = True"
| "can_be_untyped (Ident n) = True"
| "can_be_untyped (BasicLit n) = True"
| "can_be_untyped (SelectorExpr n) = True"
| "can_be_untyped (ParenExpr n X) = can_be_untyped X"
| "can_be_untyped (UnaryExpr n opr X) = can_be_untyped X"
| "can_be_untyped (BinaryExpr n X opr Y) =
     (isComparison opr \<or> (can_be_untyped X \<and> (isShift opr \<or> can_be_untyped Y)))"
| "can_be_untyped e = False"

text \<open>The calls of the callback for the node \<open>n\<close>, in order.\<close>

definition notified_for :: "nat \<Rightarrow> checker \<Rightarrow> (nat \<times> Type \<times> Value option) list" where
  "notified_for n s = filter (\<lambda>r. fst r = n) (notified s)"

subsection \<open>Conditions on the checks of sub-expressions\<close>

text \<open>The checks of sub-expressions and assignments, which are parameters here, return
  (they do not panic) and only add diagnostics, each of which satisfies \<open>P\<close>.\<close>

definition sub_checks :: "(diagnostic \<Rightarrow> bool) \<Rightarrow> pkg \<Rightarrow> bool" where
  "sub_checks P p =
    ((\<forall>e s. \<exists>x s' es. check_expr p e s = Inr (x, s')
         \<and> errors s' = errors s @ es \<and> (\<forall>d\<in>set es. P d))
   \<and> (\<forall>e t s. \<exists>x s' es. check_exprWithHint p e t s = Inr (x, s')
         \<and> errors s' = errors s @ es \<and> (\<forall>d\<in>set es. P d))
   \<and> (\<forall>x t s. \<exists>ok x' s' es. check_assignment p x t s = Inr (ok, x', s')
         \<and> errors s' = errors s @ es \<and> (\<forall>d\<in>set es. P d)))"

text \<open>The key expression \<open>k\<close> is a constant of value \<open>c\<close> that can be assigned to
  the key type: whenever it is checked and assigned, the assignment is accepted and the
  operand is the constant \<open>c\<close>.\<close>

definition const_key :: "pkg \<Rightarrow> Type \<Rightarrow> Expr \<Rightarrow> Value \<Rightarrow> bool" where
  "const_key p key k c =
    (\<forall>s x1 s1. check_expr p k s = Inr (x1, s1) \<longrightarrow>
       (\<forall>ok x2 s2. check_assignment p x1 key s1 = Inr (ok, x2, s2) \<longrightarrow>
          ok \<and> mode x2 = constant \<and> val x2 = Some c))"

text \<open>The diagnostic for a duplicate key of a map literal, at any position.\<close>

definition duplicate_key :: "diagnostic \<Rightarrow> bool" where
  "duplicate_key d = (\<exists>n. d = Error n ''duplicate key %s in map literal'')"


subsection \<open>The indices of an array or slice literal\<close>

text \<open>The key expression \<open>k\<close> is accepted by \<^verbatim>\<open>index\<close> as the constant index \<open>i\<close>
  against the length \<open>len\<close>: in whatever state, \<^verbatim>\<open>index\<close> returns \<open>i\<close> as a valid
  index and only adds diagnostics.\<close>

definition key_index :: "pkg \<Rightarrow> int64 \<Rightarrow> Expr \<Rightarrow> int \<Rightarrow> bool" where
  "key_index p len k i =
    (0 \<le> i \<and> i < 2 ^ 63
     \<and> (\<forall>s. \<exists>s' es. index p k len s = Inr ((word_of_int i, True), s')
                   \<and> errors s' = errors s @ es))"

text \<open>\<open>key\<close> gives the explicit index of each keyed element of the literal, an index
  that \<^verbatim>\<open>index\<close> accepts, and none for the other elements.\<close>

definition explicit_keys :: "pkg \<Rightarrow> int64 \<Rightarrow> (Expr \<Rightarrow> int option) \<Rightarrow> Expr list \<Rightarrow> bool" where
  "explicit_keys p len key elts =
    (\<forall>e\<in>set elts.
       case e of
         KeyValueExpr n k v \<Rightarrow> (\<exists>i. key e = Some i \<and> key_index p len k i)
       | _ \<Rightarrow> key e = None)"

text \<open>The indices of the elements of a literal as the language gives them, not read
  from the loop of \<^verbatim>\<open>indexedElts\<close>: the explicit index of a keyed element, and for
  any other element one more than the index of the element before it, 0 for the
  first one. \<open>nxt\<close> is the index of an element without key at the head of the
  list.\<close>

definition used_index :: "(Expr \<Rightarrow> int option) \<Rightarrow> int \<Rightarrow> Expr \<Rightarrow> int" where
  "used_index key nxt e = (case key e of Some i \<Rightarrow> i | None \<Rightarrow> nxt)"

fun elt_indices :: "(Expr \<Rightarrow> int option) \<Rightarrow> int \<Rightarrow> Expr list \<Rightarrow> int list" where
  "elt_indices key nxt [] = []"
| "elt_indices key nxt (e # es) =
     used_index key nxt e # elt_indices key (used_index key nxt e + 1) es"

text \<open>The diagnostic for a duplicate index, at the element of node \<open>n\<close>.\<close>

definition duplicate_index :: "nat \<Rightarrow> diagnostic" where
  "duplicate_index n = Error n ''duplicate index %d in array or slice literal''"

subsection \<open>Concrete inputs\<close>

text \<open>A context of a 64-bit platform: every word-sized kind has 8 bytes, and a
  callback is installed.\<close>

definition ctxt64 :: Context where
  "ctxt64 = \<lparr> sizeof = (\<lambda>k. 8), has_Expr = True \<rparr>"

text \<open>Exact arithmetic on integer values, for concrete inputs: comparison, shift, and
  the binary operators (\<^verbatim>\<open>QUO_ASSIGN\<close> is the truncating division).\<close>

fun int_Compare :: "Value \<Rightarrow> Token \<Rightarrow> Value \<Rightarrow> bool" where
  "int_Compare (intVal a) token_EQL (intVal b) = (a = b)"
| "int_Compare (intVal a) token_NEQ (intVal b) = (a \<noteq> b)"
| "int_Compare (intVal a) token_LSS (intVal b) = (a < b)"
| "int_Compare (intVal a) token_LEQ (intVal b) = (a \<le> b)"
| "int_Compare (intVal a) token_GTR (intVal b) = (a > b)"
| "int_Compare (intVal a) token_GEQ (intVal b) = (a \<ge> b)"
| "int_Compare a opr b = False"

fun int_Shift :: "Value \<Rightarrow> Token \<Rightarrow> uint \<Rightarrow> Value" where
  "int_Shift (intVal a) token_SHL n = intVal (a * 2 ^ unat n)"
| "int_Shift (intVal a) token_SHR n = intVal (a div 2 ^ unat n)"
| "int_Shift a opr n = unknownVal"

fun int_BinaryOp :: "Value \<Rightarrow> Token \<Rightarrow> Value \<Rightarrow> Value" where
  "int_BinaryOp (intVal a) token_ADD (intVal b) = intVal (a + b)"
| "int_BinaryOp (intVal a) token_SUB (intVal b) = intVal (a - b)"
| "int_BinaryOp (intVal a) token_MUL (intVal b) = intVal (a * b)"
| "int_BinaryOp (intVal a) token_QUO_ASSIGN (intVal b) = intVal (sgn a * sgn b * (\<bar>a\<bar> div \<bar>b\<bar>))"
| "int_BinaryOp a opr b = unknownVal"

text \<open>The default type of an untyped kind.\<close>

fun default_of :: "Type \<Rightarrow> Type" where
  "default_of (Basic UntypedBool) = Basic Bool"
| "default_of (Basic UntypedInt) = Basic IntKind"
| "default_of (Basic UntypedRune) = Basic Int32"
| "default_of (Basic UntypedFloat) = Basic Float64"
| "default_of (Basic UntypedComplex) = Basic Complex128"
| "default_of (Basic UntypedString) = Basic String"
| "default_of t = t"

text \<open>A package for concrete inputs. The operand of a sub-expression is read from a
  table, as if \<^verbatim>\<open>expr0\<close> had computed it, and recorded as \<^verbatim>\<open>rawExpr\<close> does;
  every assignment is accepted; every comparison is allowed.\<close>

definition table_pkg :: "(Expr \<Rightarrow> operand) \<Rightarrow> pkg" where
  "table_pkg tab =
    \<lparr> check_ctxt = ctxt64,
      debug = True,
      defaultType = default_of,
      isAssignableTo = (\<lambda>x t. True),
      isComparable = (\<lambda>t. True),
      hasNil = (\<lambda>t. False),
      isOrdered = (\<lambda>t. True),
      exact_Compare = int_Compare,
      exact_Shift = int_Shift,
      exact_BinaryOp = int_BinaryOp,
      check_expr = (\<lambda>e s. rawExpr_record ctxt64 (tab e) s),
      check_exprWithHint = (\<lambda>e t s. rawExpr_record ctxt64 (tab e) s),
      check_assignment = (\<lambda>x t s. Inr (True, x, s)) \<rparr>"

text \<open>The operand of an untyped integer constant, of an untyped string constant and
  of a variable of a type.\<close>

definition const_int :: "Expr \<Rightarrow> int \<Rightarrow> operand" where
  "const_int e i = \<lparr> mode = constant, expr = e, typ = Basic UntypedInt, val = Some (intVal i) \<rparr>"

definition const_string :: "Expr \<Rightarrow> string \<Rightarrow> operand" where
  "const_string e str =
    \<lparr> mode = constant, expr = e, typ = Basic UntypedString, val = Some (stringVal str) \<rparr>"

definition var_of :: "Expr \<Rightarrow> Type \<Rightarrow> operand" where
  "var_of e t = \<lparr> mode = variable, expr = e, typ = t, val = None \<rparr>"

text \<open>The state of a checker that has checked nothing yet.\<close>

definition checker0 :: checker where
  "checker0 = \<lparr> untyped = Map.empty, errors = [], notified = [] \<rparr>"

text \<open>The tree of \<^verbatim>\<open>1 << s\<close> and a state that tracks the shift (not constant) and
  its left operand (a constant, flagged as the left operand of a shift).\<close>

definition shift_tree :: Expr where
  "shift_tree = BinaryExpr 1 (BasicLit 2) token_SHL (Ident 3)"

definition shift_tracked :: checker where
  "shift_tracked = checker0\<lparr>untyped :=
     [1 \<mapsto> \<lparr>isLhs = False, info_typ = UntypedInt, info_val = None\<rparr>,
      2 \<mapsto> \<lparr>isLhs = True, info_typ = UntypedInt, info_val = Some (intVal 1)\<rparr>]\<rparr>"


text \<open>The operands of \<^verbatim>\<open>"a" << 1\<close>: the literal at node 1 is the string, any other
  one the integer 1.\<close>

definition string_shift_table :: "Expr \<Rightarrow> operand" where
  "string_shift_table e = (if e = BasicLit 1 then const_string e ''a'' else const_int e 1)"


text \<open>The operands of \<^verbatim>\<open>x / 0\<close>: the identifier at node 1 is a variable of type
  \<^verbatim>\<open>int64\<close>, any other expression the untyped constant 0.\<close>

definition div_table :: "Expr \<Rightarrow> operand" where
  "div_table e = (if e = Ident 1 then var_of e (Basic Int64) else const_int e 0)"


text \<open>The operands of \<^verbatim>\<open>x < 2\<close>: the identifier at node 1 is a variable of type
  \<^verbatim>\<open>int64\<close>, any other expression the untyped constant 2.\<close>

definition cmp_table :: "Expr \<Rightarrow> operand" where
  "cmp_table e = (if e = Ident 1 then var_of e (Basic Int64) else const_int e 2)"


text \<open>The operands of \<^verbatim>\<open>s[5:2]\<close>: the identifier at node 1 is a variable of type
  \<^verbatim>\<open>[5]int\<close>, the literal at node 2 is 5, any other expression is 2.\<close>

definition slice_table :: "Expr \<Rightarrow> operand" where
  "slice_table e =
    (if e = Ident 1 then var_of e (Array (Basic IntKind) 5)
     else if e = BasicLit 2 then const_int e 5
     else const_int e 2)"


text \<open>A table of untyped integer constants, the value given by the node; and the
  elements of a map literal with two keys, at the nodes 2 and 5.\<close>

definition key_table :: "(nat \<Rightarrow> int) \<Rightarrow> Expr \<Rightarrow> operand" where
  "key_table f e = const_int e (f (node e))"

definition same_keys :: "Expr list" where
  "same_keys = [KeyValueExpr 1 (BasicLit 2) (BasicLit 3), KeyValueExpr 4 (BasicLit 5) (BasicLit 6)]"



text \<open>The explicit indices of the elements of a literal whose keys are literals of
  \<^const>\<open>key_table\<close>. The elements of \<^verbatim>\<open>[]int{5: _, 1: _, _, 1: _}\<close>, with the keys at
  the nodes 2, 5 and 9, and of a literal with one keyed element, the key at node 2.\<close>

definition literal_key :: "(nat \<Rightarrow> int) \<Rightarrow> Expr \<Rightarrow> int option" where
  "literal_key f e = (case e of KeyValueExpr n k v \<Rightarrow> Some (f (node k)) | _ \<Rightarrow> None)"

definition out_of_order :: "Expr list" where
  "out_of_order =
    [KeyValueExpr 1 (BasicLit 2) (BasicLit 3), KeyValueExpr 4 (BasicLit 5) (BasicLit 6),
     BasicLit 7, KeyValueExpr 8 (BasicLit 9) (BasicLit 10)]"

definition max_index :: "Expr list" where
  "max_index = [KeyValueExpr 1 (BasicLit 2) (BasicLit 3)]"
section \<open>Basic facts\<close>

lemma thenP_Inr_iff:
  "thenP m f = Inr r \<longleftrightarrow> (\<exists>a. m = Inr a \<and> f a = Inr r)"
  by (cases m) (simp_all add: thenP_def)

lemma thenP_simps [simp]:
  "thenP (Inr a) f = f a" "thenP (Inl e) f = Inl e"
  by (simp_all add: thenP_def)

lemma thenP_Inr_pair:
  "thenP m (\<lambda>(a, b). f a b) = Inr r \<Longrightarrow> \<exists>a b. m = Inr (a, b) \<and> f a b = Inr r"
  by (cases m) (auto simp: thenP_def)

lemma table_pkg_simps [simp]:
  "check_ctxt (table_pkg tab) = ctxt64"
  "debug (table_pkg tab) = True"
  "defaultType (table_pkg tab) = default_of"
  "isAssignableTo (table_pkg tab) = (\<lambda>x t. True)"
  "isComparable (table_pkg tab) = (\<lambda>t. True)"
  "hasNil (table_pkg tab) = (\<lambda>t. False)"
  "isOrdered (table_pkg tab) = (\<lambda>t. True)"
  "exact_Compare (table_pkg tab) = int_Compare"
  "exact_Shift (table_pkg tab) = int_Shift"
  "exact_BinaryOp (table_pkg tab) = int_BinaryOp"
  "check_expr (table_pkg tab) = (\<lambda>e s. rawExpr_record ctxt64 (tab e) s)"
  "check_exprWithHint (table_pkg tab) = (\<lambda>e t s. rawExpr_record ctxt64 (tab e) s)"
  "check_assignment (table_pkg tab) = (\<lambda>x t s. Inr (True, x, s))"
  by (simp_all add: table_pkg_def)

section \<open>Representability of integer constants\<close>

lemma bits_le_iff: "bits n \<le> k \<longleftrightarrow> n < 2 ^ k"
proof (induction n arbitrary: k rule: bits.induct)
  case (1 n)
  show ?case
  proof (cases "n = 0")
    case True
    then show ?thesis by (simp add: bits.simps)
  next
    case False
    show ?thesis
    proof (cases k)
      case 0
      with False show ?thesis by (simp add: bits.simps)
    next
      case (Suc j)
      have "bits n \<le> Suc j \<longleftrightarrow> bits (n div 2) \<le> j"
        using False by (subst bits.simps) simp
      also have "\<dots> \<longleftrightarrow> n div 2 < 2 ^ j" using 1 False by simp
      also have "\<dots> \<longleftrightarrow> n < 2 ^ Suc j" by auto
      finally show ?thesis using Suc by simp
    qed
  qed
qed

lemma sint_word64: "- (2 ^ 63) \<le> v \<Longrightarrow> v \<le> 2 ^ 63 - 1 \<Longrightarrow> sint (word_of_int v :: 64 word) = v"
  by (simp add: sint_sbintrunc' signed_take_bit_int_eq_self)

lemma pow_le_63: "n \<le> 63 \<Longrightarrow> (2::int) ^ n \<le> 2 ^ 63"
  by (rule power_increasing) simp_all

lemma sint_push_m1: 
  assumes "n \<le> 63" shows "sint (push_bit n (- 1 :: 64 word)) = - (2 ^ n)"
proof -
  have "push_bit n (- 1 :: 64 word) = word_of_int (- (2 ^ n))"
    by (simp add: push_bit_eq_mult)
  moreover have "sint (word_of_int (- (2 ^ n)) :: 64 word) = - (2 ^ n)"
  proof (rule sint_word64)
    have "(0::int) < 2 ^ n" by simp
    then show "- (2 ^ 63) \<le> - ((2::int) ^ n)" "- ((2::int) ^ n) \<le> 2 ^ 63 - 1"
      using pow_le_63 [OF assms] by linarith+
  qed
  ultimately show ?thesis by simp
qed

lemma sint_push_1: 
  assumes "n \<le> 63" shows "sint (push_bit n (1 :: 64 word) - 1) = 2 ^ n - 1"
proof -
  have "push_bit n (1 :: 64 word) - 1 = word_of_int (2 ^ n - 1)"
    by (simp add: push_bit_eq_mult)
  moreover have "sint (word_of_int (2 ^ n - 1) :: 64 word) = 2 ^ n - 1"
  proof (rule sint_word64)
    have "(0::int) < 2 ^ n" by simp
    then show "- (2 ^ 63) \<le> (2::int) ^ n - 1" "(2::int) ^ n - 1 \<le> 2 ^ 63 - 1"
      using pow_le_63 [OF assms] by linarith+
  qed
  ultimately show ?thesis by simp
qed

lemma unat_size8:
  assumes "unat (w :: 64 word) \<le> 8"
  shows "unat (w * 8) = 8 * unat w"
proof -
  have "unat (w * 8) = (unat w * 8) mod 2 ^ 64" by (simp add: unat_word_ariths)
  also have "\<dots> = unat w * 8" using assms by simp
  finally show ?thesis by simp
qed

lemma int64_switch_Int:
  assumes "1 \<le> unat (sizeof ctxt IntKind)" "unat (sizeof ctxt IntKind) \<le> 8"
  shows "int64_switch x ctxt IntKind =
    Some (- (2 ^ (width ctxt IntKind - 1)) \<le> sint x \<and> sint x \<le> 2 ^ (width ctxt IntKind - 1) - 1)"
proof -
  let ?w = "sizeof ctxt IntKind"
  have u: "unat (?w * 8) = 8 * unat ?w" using assms by (simp add: unat_size8)
  have "unat (?w * 8 - 1) = unat (?w * 8) - 1"
    using u assms by (simp add: unat_minus_one unat_eq_zero [symmetric])
  then have s: "unat (?w * 8 - 1) = 8 * unat ?w - 1" using u by simp
  have "8 * unat ?w - 1 \<le> 63" using assms by simp
  then show ?thesis
    using sint_push_m1 [of "8 * unat ?w - 1"] sint_push_1 [of "8 * unat ?w - 1"]
    by (simp add: int64_switch_def width_def Let_def s)
qed



lemma sint_of_nat8:
  assumes "n \<le> 8" shows "sint (of_nat (8 * n) :: 64 word) = int (8 * n)"
proof -
  have "sint (word_of_int (int (8 * n)) :: 64 word) = int (8 * n)"
    using assms by (intro sint_word64) simp_all
  then show ?thesis by simp
qed

lemma uint_check:
  "(Sign (intVal v) \<ge> 0 \<and> BitLen (intVal v) \<le> int k) = (0 \<le> v \<and> v < 2 ^ k)"
proof (cases "0 \<le> v")
  case True
  then have "(nat \<bar>v\<bar> < 2 ^ k) = (v < 2 ^ k)"
    by (metis abs_of_nonneg nat_less_iff of_nat_numeral of_nat_power)
  then show ?thesis using True bits_le_iff [of "nat \<bar>v\<bar>" k] by (simp add: sgn_if)
next
  case False
  then show ?thesis by (simp add: sgn_if)
qed

lemma uint_check64:
  "(Sign (intVal v) \<ge> 0 \<and> BitLen (intVal v) \<le> 64) = (0 \<le> v \<and> v < 2 ^ 64)"
  using uint_check [of v 64] by simp

lemma int64_switch_Uint:
  assumes "as = Uint \<or> as = Uintptr"
    and "1 \<le> unat (sizeof ctxt as)" "unat (sizeof ctxt as) \<le> 8"
  shows "int64_switch x ctxt as =
    Some (0 \<le> sint x \<and> (width ctxt as < 64 \<longrightarrow> sint x \<le> 2 ^ width ctxt as - 1))"
proof -
  define w where "w = sizeof ctxt as"
  have u: "unat (w * 8) = 8 * unat w" using assms by (simp add: unat_size8 w_def)
  have lt: "w * 8 < 64 \<longleftrightarrow> 8 * unat w < 64"
    using u by (simp add: word_less_nat_alt)
  have wd: "width ctxt as = 8 * unat w" using assms(1) by (auto simp: width_def w_def)
  have E: "int64_switch x ctxt as =
    (if w * 8 < 64 then Some (0 \<le> sint x \<and> sint x \<le> sint (push_bit (unat (w * 8)) (1 :: int64) - 1))
     else Some (0 \<le> sint x))"
    using assms(1) by (auto simp: int64_switch_def Let_def w_def)
  show ?thesis
  proof (cases "8 * unat w < 64")
    case True
    then have "8 * unat w \<le> 63" by simp
    from sint_push_1 [OF this]
    have P: "sint (push_bit (unat (w * 8)) (1 :: int64) - 1) = 2 ^ (8 * unat w) - 1"
      by (simp only: u)
    show ?thesis unfolding E P wd lt using True by simp
  next
    case False
    show ?thesis unfolding E wd lt using False by simp
  qed
qed

lemma bitlen_switch_Uint:
  assumes "as = Uint \<or> as = Uintptr"
    and "1 \<le> unat (sizeof ctxt as)" "unat (sizeof ctxt as) \<le> 8"
  shows "bitlen_switch (intVal v) ctxt as = Some (0 \<le> v \<and> v < 2 ^ width ctxt as)"
proof -
  define w where "w = sizeof ctxt as"
  have u: "unat (w * 8) = 8 * unat w" using assms by (simp add: unat_size8 w_def)
  have wd: "width ctxt as = 8 * unat w" using assms(1) by (auto simp: width_def w_def)
  have "w * 8 = of_nat (unat (w * 8))" by simp
  then have "w * 8 = of_nat (8 * unat w)" by (simp only: u)
  then have s: "sint (w * 8) = int (8 * unat w)"
    using sint_of_nat8 [of "unat w"] assms(3) by (simp only: w_def)
  have E: "bitlen_switch (intVal v) ctxt as =
     Some (Sign (intVal v) \<ge> 0 \<and> BitLen (intVal v) \<le> sint (w * 8))"
    using assms(1) by (auto simp: bitlen_switch_def Let_def w_def simp del: Sign.simps BitLen.simps)
  show ?thesis unfolding E s wd uint_check ..
qed

lemma isRepresentableConst_intVal:
  "isRepresentableConst (intVal v) ctxt as =
    (case (if - (2 ^ 63) \<le> v \<and> v \<le> 2 ^ 63 - 1 then int64_switch (word_of_int v) ctxt as else None) of
       Some b \<Rightarrow> b
     | None \<Rightarrow> (case bitlen_switch (intVal v) ctxt as of Some b \<Rightarrow> b | None \<Rightarrow> False))"
  by (simp add: isRepresentableConst_def)

lemma representable_signed_fixed:
  "isRepresentableConst (intVal v) ctxt Int8 = (- 128 \<le> v \<and> v \<le> 127)"
  "isRepresentableConst (intVal v) ctxt Int16 = (- 32768 \<le> v \<and> v \<le> 32767)"
  "isRepresentableConst (intVal v) ctxt Int32 = (- 2147483648 \<le> v \<and> v \<le> 2147483647)"
  "isRepresentableConst (intVal v) ctxt Int64 = (- (2 ^ 63) \<le> v \<and> v \<le> 2 ^ 63 - 1)"
  by (auto simp: isRepresentableConst_intVal int64_switch_def bitlen_switch_def sint_word64)

lemma representable_unsigned_fixed:
  "isRepresentableConst (intVal v) ctxt Uint8 = (0 \<le> v \<and> v \<le> 255)"
  "isRepresentableConst (intVal v) ctxt Uint16 = (0 \<le> v \<and> v \<le> 65535)"
  "isRepresentableConst (intVal v) ctxt Uint32 = (0 \<le> v \<and> v \<le> 4294967295)"
  by (auto simp: isRepresentableConst_intVal int64_switch_def bitlen_switch_def sint_word64)

lemma representable_Uint64:
  "isRepresentableConst (intVal v) ctxt Uint64 = (0 \<le> v \<and> v \<le> 2 ^ 64 - 1)"
proof (cases "- (2 ^ 63) \<le> v \<and> v \<le> 2 ^ 63 - 1")
  case True
  then show ?thesis
    by (auto simp: isRepresentableConst_intVal int64_switch_def sint_word64)
next
  case False
  have "bitlen_switch (intVal v) ctxt Uint64 = Some (Sign (intVal v) \<ge> 0 \<and> BitLen (intVal v) \<le> 64)"
    by (simp add: bitlen_switch_def Let_def del: Sign.simps BitLen.simps)
  then have "bitlen_switch (intVal v) ctxt Uint64 = Some (0 \<le> v \<and> v < 2 ^ 64)"
    by (simp only: uint_check64)
  then show ?thesis using False by (auto simp: isRepresentableConst_intVal)
qed

lemma representable_Int:
  assumes "1 \<le> unat (sizeof ctxt IntKind)" "unat (sizeof ctxt IntKind) \<le> 8"
  shows "isRepresentableConst (intVal v) ctxt IntKind =
     (- (2 ^ (width ctxt IntKind - 1)) \<le> v \<and> v \<le> 2 ^ (width ctxt IntKind - 1) - 1)"
proof (cases "- (2 ^ 63) \<le> v \<and> v \<le> 2 ^ 63 - 1")
  case True
  then show ?thesis
    by (simp add: isRepresentableConst_intVal int64_switch_Int [OF assms] sint_word64)
next
  case False
  have "width ctxt IntKind - 1 \<le> 63" using assms by (simp add: width_def)
  from pow_le_63 [OF this] have "(2::int) ^ (width ctxt IntKind - 1) \<le> 2 ^ 63" .
  then have "\<not> (- (2 ^ (width ctxt IntKind - 1)) \<le> v \<and> v \<le> 2 ^ (width ctxt IntKind - 1) - 1)"
    using False by linarith
  moreover have "bitlen_switch (intVal v) ctxt IntKind = None"
    by (simp add: bitlen_switch_def Let_def)
  ultimately show ?thesis using False by (auto simp: isRepresentableConst_intVal)
qed

lemma representable_Uint:
  assumes "as = Uint \<or> as = Uintptr"
    and "1 \<le> unat (sizeof ctxt as)" "unat (sizeof ctxt as) \<le> 8"
  shows "isRepresentableConst (intVal v) ctxt as = (0 \<le> v \<and> v \<le> 2 ^ width ctxt as - 1)"
proof (cases "- (2 ^ 63) \<le> v \<and> v \<le> 2 ^ 63 - 1")
  case True
  have "width ctxt as \<le> 64" using assms by (auto simp: width_def)
  then have "width ctxt as < 64 \<or> width ctxt as = 64" by auto
  then show ?thesis
  proof
    assume "width ctxt as < 64"
    then show ?thesis using True
      by (simp add: isRepresentableConst_intVal int64_switch_Uint [OF assms] sint_word64)
  next
    assume "width ctxt as = 64"
    then show ?thesis using True
      by (simp add: isRepresentableConst_intVal int64_switch_Uint [OF assms] sint_word64)
  qed
next
  case False
  then show ?thesis
    by (auto simp: isRepresentableConst_intVal bitlen_switch_Uint [OF assms])
qed


text \<open>
  Claim C1. For every integer constant \<open>v\<close> and every concrete integer kind \<open>as\<close>,
  \<^verbatim>\<open>isRepresentableConst\<close> accepts \<open>v\<close> iff \<open>v\<close> fits the kind's bit width:
  a signed kind of width \<open>s\<close> accepts exactly \<open>-2^(s-1) .. 2^(s-1)-1\<close>, an unsigned
  one exactly \<open>0 .. 2^s-1\<close>; \<^verbatim>\<open>int8\<close> accepts exactly \<open>-128 .. 127\<close> and
  \<^verbatim>\<open>uint16\<close> exactly \<open>0 .. 65535\<close>. The width of \<^verbatim>\<open>int\<close>,
  \<^verbatim>\<open>uint\<close> and \<^verbatim>\<open>uintptr\<close> is 8 times the configured size, a size of 1 to 8
  bytes (Go's platforms have 4 or 8).
\<close>

theorem isRepresentableConst_int_range:
  assumes "\<forall>k\<in>word_sized. 1 \<le> unat (sizeof ctxt k) \<and> unat (sizeof ctxt k) \<le> 8"
  shows "(as \<in> signed_kinds \<longrightarrow>
            isRepresentableConst (intVal v) ctxt as =
              (- (2 ^ (width ctxt as - 1)) \<le> v \<and> v \<le> 2 ^ (width ctxt as - 1) - 1))
       \<and> (as \<in> unsigned_kinds \<longrightarrow>
            isRepresentableConst (intVal v) ctxt as = (0 \<le> v \<and> v \<le> 2 ^ width ctxt as - 1))
       \<and> isRepresentableConst (intVal v) ctxt Int8 = (- 128 \<le> v \<and> v \<le> 127)
       \<and> isRepresentableConst (intVal v) ctxt Uint16 = (0 \<le> v \<and> v \<le> 65535)"
proof (intro conjI impI)
  assume "as \<in> signed_kinds"
  then consider "as = IntKind" | "as = Int8" | "as = Int16" | "as = Int32" | "as = Int64"
    by (auto simp: signed_kinds_def)
  then show "isRepresentableConst (intVal v) ctxt as =
              (- (2 ^ (width ctxt as - 1)) \<le> v \<and> v \<le> 2 ^ (width ctxt as - 1) - 1)"
  proof cases
    case 1
    then show ?thesis using assms representable_Int [of ctxt v] by (simp add: word_sized_def)
  qed (simp_all add: representable_signed_fixed width_def)
next
  assume "as \<in> unsigned_kinds"
  then consider "as = Uint \<or> as = Uintptr" | "as = Uint8" | "as = Uint16" | "as = Uint32" | "as = Uint64"
    by (auto simp: unsigned_kinds_def)
  then show "isRepresentableConst (intVal v) ctxt as = (0 \<le> v \<and> v \<le> 2 ^ width ctxt as - 1)"
  proof cases
    case 1
    then have "1 \<le> unat (sizeof ctxt as)" "unat (sizeof ctxt as) \<le> 8"
      using assms by (auto simp: word_sized_def)
    from representable_Uint [OF 1 this] show ?thesis .
  qed (simp_all add: representable_unsigned_fixed representable_Uint64 width_def)
qed (simp_all add: representable_signed_fixed representable_unsigned_fixed)

text \<open>On a 64-bit platform \<open>2^63\<close> is a \<^verbatim>\<open>uint\<close> and not an \<^verbatim>\<open>int\<close>.\<close>

theorem isRepresentableConst_int_range_witness:
  "isRepresentableConst (intVal (2 ^ 63)) ctxt64 Uint
   \<and> \<not> isRepresentableConst (intVal (2 ^ 63)) ctxt64 IntKind
   \<and> \<not> isRepresentableConst (intVal 128) ctxt64 Int8
   \<and> isRepresentableConst (intVal 65535) ctxt64 Uint16"
proof -
  have h: "\<forall>k\<in>word_sized. 1 \<le> unat (sizeof ctxt64 k) \<and> unat (sizeof ctxt64 k) \<le> 8"
    by (simp add: ctxt64_def)
  have w: "width ctxt64 Uint = 64" "width ctxt64 IntKind = 64"
    by (simp_all add: width_def ctxt64_def)
  show ?thesis
    using isRepresentableConst_int_range [OF h, of Uint "2 ^ 63"]
      isRepresentableConst_int_range [OF h, of IntKind "2 ^ 63"]
      isRepresentableConst_int_range [OF h, of IntKind 128]
      isRepresentableConst_int_range [OF h, of IntKind 65535]
    by (simp add: w signed_kinds_def unsigned_kinds_def)
qed

text \<open>
  Claim C10. For every target kind, a constant of unknown kind (the result of an earlier
  error) is representable: \<^verbatim>\<open>isRepresentableConst\<close> returns true, so the
  unknown constant raises no representability diagnostic of its own.
\<close>

theorem isRepresentableConst_unknown:
  "isRepresentableConst unknownVal ctxt as"
  by (simp add: isRepresentableConst_def)
section \<open>The tracker of untyped expressions\<close>

lemma updateExprType_untracked:
  "untyped s (node x) = None \<Longrightarrow> updateExprType p x t final s = Inr s"
  by (simp add: updateExprType.simps)

lemma updateExprType_leaf:
  "updateExprType p (CallExpr n) t final s =
     (case untyped s n of None \<Rightarrow> Inr s | Some old \<Rightarrow> updateExprType_record p (CallExpr n) old t final s)"
  "updateExprType p (Ident n) t final s =
     (case untyped s n of None \<Rightarrow> Inr s | Some old \<Rightarrow> updateExprType_record p (Ident n) old t final s)"
  "updateExprType p (BasicLit n) t final s =
     (case untyped s n of None \<Rightarrow> Inr s | Some old \<Rightarrow> updateExprType_record p (BasicLit n) old t final s)"
  "updateExprType p (SelectorExpr n) t final s =
     (case untyped s n of None \<Rightarrow> Inr s | Some old \<Rightarrow> updateExprType_record p (SelectorExpr n) old t final s)"
  by (simp_all add: updateExprType.simps split: option.splits)

lemma updateExprType_Paren:
  "updateExprType p (ParenExpr n X) t final s =
     (case untyped s n of None \<Rightarrow> Inr s
      | Some old \<Rightarrow> thenP (updateExprType p X t final s) (updateExprType_record p (ParenExpr n X) old t final))"
  by (subst updateExprType.simps) (simp add: thenP_def split: option.splits sum.splits)

lemma updateExprType_Unary:
  "updateExprType p (UnaryExpr n opr X) t final s =
     (case untyped s n of None \<Rightarrow> Inr s
      | Some old \<Rightarrow>
          thenP (if info_val old \<noteq> None then Inr s else updateExprType p X t final s)
            (updateExprType_record p (UnaryExpr n opr X) old t final))"
  by (subst updateExprType.simps) (simp add: thenP_def split: option.splits sum.splits)

lemma updateExprType_Binary:
  "updateExprType p (BinaryExpr n X opr Y) t final s =
     (case untyped s n of None \<Rightarrow> Inr s
      | Some old \<Rightarrow>
          thenP (if info_val old \<noteq> None \<or> isComparison opr then Inr s
                 else if isShift opr then updateExprType p X t final s
                 else thenP (updateExprType p X t final s) (updateExprType p Y t final))
            (updateExprType_record p (BinaryExpr n X opr Y) old t final))"
  by (subst updateExprType.simps) (simp add: thenP_def split: option.splits sum.splits)

lemma updateExprType_never:
  "updateExprType p (BadExpr n) t final s =
     (case untyped s n of None \<Rightarrow> Inr s | Some old \<Rightarrow> if debug p then Inl Unreachable else Inr s)"
  "updateExprType p (FuncLit n) t final s =
     (case untyped s n of None \<Rightarrow> Inr s | Some old \<Rightarrow> if debug p then Inl Unreachable else Inr s)"
  "updateExprType p (CompositeLit n) t final s =
     (case untyped s n of None \<Rightarrow> Inr s | Some old \<Rightarrow> if debug p then Inl Unreachable else Inr s)"
  "updateExprType p (IndexExpr n) t final s =
     (case untyped s n of None \<Rightarrow> Inr s | Some old \<Rightarrow> if debug p then Inl Unreachable else Inr s)"
  "updateExprType p (SliceExpr n X lo hi) t final s =
     (case untyped s n of None \<Rightarrow> Inr s | Some old \<Rightarrow> if debug p then Inl Unreachable else Inr s)"
  "updateExprType p (TypeAssertExpr n) t final s =
     (case untyped s n of None \<Rightarrow> Inr s | Some old \<Rightarrow> if debug p then Inl Unreachable else Inr s)"
  "updateExprType p (StarExpr n) t final s =
     (case untyped s n of None \<Rightarrow> Inr s | Some old \<Rightarrow> if debug p then Inl Unreachable else Inr s)"
  "updateExprType p (KeyValueExpr n k v) t final s =
     (case untyped s n of None \<Rightarrow> Inr s | Some old \<Rightarrow> if debug p then Inl Unreachable else Inr s)"
  "updateExprType p (ArrayType n) t final s =
     (case untyped s n of None \<Rightarrow> Inr s | Some old \<Rightarrow> if debug p then Inl Unreachable else Inr s)"
  "updateExprType p (StructType n) t final s =
     (case untyped s n of None \<Rightarrow> Inr s | Some old \<Rightarrow> if debug p then Inl Unreachable else Inr s)"
  "updateExprType p (FuncType n) t final s =
     (case untyped s n of None \<Rightarrow> Inr s | Some old \<Rightarrow> if debug p then Inl Unreachable else Inr s)"
  "updateExprType p (InterfaceType n) t final s =
     (case untyped s n of None \<Rightarrow> Inr s | Some old \<Rightarrow> if debug p then Inl Unreachable else Inr s)"
  "updateExprType p (MapType n) t final s =
     (case untyped s n of None \<Rightarrow> Inr s | Some old \<Rightarrow> if debug p then Inl Unreachable else Inr s)"
  "updateExprType p (ChanType n) t final s =
     (case untyped s n of None \<Rightarrow> Inr s | Some old \<Rightarrow> if debug p then Inl Unreachable else Inr s)"
  by (simp_all add: updateExprType.simps never_untyped_def split: option.splits)

lemma updateExprType_Ellipsis:
  "updateExprType p (Ellipsis n) t final s =
     (case untyped s n of None \<Rightarrow> Inr s | Some old \<Rightarrow> Inl Unreachable)"
  by (simp add: updateExprType.simps split: option.splits)

lemma isUntyped_Basic: "isUntyped t \<Longrightarrow> \<exists>k. Underlying t = Basic k"
  by (auto simp: isUntyped_def has_kind_def split: Type.splits)

lemma updateExprType_record_total:
  "\<exists>s'. updateExprType_record p x old t final s = Inr s'"
  by (auto simp: updateExprType_record_def Let_def dest: isUntyped_Basic)

lemma updateExprType_record_frame:
  assumes "updateExprType_record p x old t final s = Inr s'"
  shows "(\<exists>es. errors s' = errors s @ es)
       \<and> (\<forall>m. m \<noteq> node x \<longrightarrow> notified_for m s' = notified_for m s \<and> untyped s' m = untyped s m)"
  using assms
  by (auto simp: updateExprType_record_def Let_def invalidOp_def notified_for_def
      split: if_splits Type.splits)

lemma updateExprType_frame:
  "updateExprType p x t final s = Inr s' \<Longrightarrow>
     (\<exists>es. errors s' = errors s @ es)
   \<and> (\<forall>m. m \<notin> set (nodes x) \<longrightarrow> notified_for m s' = notified_for m s \<and> untyped s' m = untyped s m)"
proof (induction x arbitrary: s s')
  case (ParenExpr n X)
  show ?case
  proof (cases "untyped s n")
    case None
    with ParenExpr.prems show ?thesis by (simp add: updateExprType_Paren)
  next
    case (Some old)
    with ParenExpr.prems obtain s1 where
      1: "updateExprType p X t final s = Inr s1" and
      2: "updateExprType_record p (ParenExpr n X) old t final s1 = Inr s'"
      by (auto simp: updateExprType_Paren thenP_Inr_iff)
    from ParenExpr.IH [OF 1] updateExprType_record_frame [OF 2]
    show ?thesis by auto
  qed
next
  case (UnaryExpr n opr X)
  show ?case
  proof (cases "untyped s n")
    case None
    with UnaryExpr.prems show ?thesis by (simp add: updateExprType_Unary)
  next
    case (Some old)
    with UnaryExpr.prems obtain s1 where
      1: "s1 = s \<or> updateExprType p X t final s = Inr s1" and
      2: "updateExprType_record p (UnaryExpr n opr X) old t final s1 = Inr s'"
      by (auto simp: updateExprType_Unary thenP_Inr_iff split: if_splits)
    from 1 UnaryExpr.IH [of s s1] updateExprType_record_frame [OF 2]
    show ?thesis by auto
  qed
next
  case (BinaryExpr n X opr Y)
  show ?case
  proof (cases "untyped s n")
    case None
    with BinaryExpr.prems show ?thesis by (simp add: updateExprType_Binary)
  next
    case (Some old)
    with BinaryExpr.prems obtain s1 where
      1: "s1 = s \<or> updateExprType p X t final s = Inr s1
           \<or> (\<exists>s0. updateExprType p X t final s = Inr s0 \<and> updateExprType p Y t final s0 = Inr s1)" and
      2: "updateExprType_record p (BinaryExpr n X opr Y) old t final s1 = Inr s'"
      by (auto simp: updateExprType_Binary thenP_Inr_iff split: if_splits)
    from 1 have "(\<exists>es. errors s1 = errors s @ es)
       \<and> (\<forall>m. m \<notin> set (nodes X) \<union> set (nodes Y) \<longrightarrow>
             notified_for m s1 = notified_for m s \<and> untyped s1 m = untyped s m)"
    proof (elim disjE exE conjE)
      assume "s1 = s" then show ?thesis by simp
    next
      assume "updateExprType p X t final s = Inr s1"
      from BinaryExpr.IH(1) [OF this] show ?thesis by auto
    next
      fix s0 assume a: "updateExprType p X t final s = Inr s0" and b: "updateExprType p Y t final s0 = Inr s1"
      from BinaryExpr.IH(1) [OF a] BinaryExpr.IH(2) [OF b] show ?thesis by auto
    qed
    with updateExprType_record_frame [OF 2]
    show ?thesis by auto
  qed
qed (auto simp: updateExprType_leaf updateExprType_never updateExprType_Ellipsis
       split: option.splits if_splits dest!: updateExprType_record_frame)


lemma updateExprType_total:
  "can_be_untyped x \<Longrightarrow> \<exists>s'. updateExprType p x t final s = Inr s'"
proof (induction x arbitrary: s)
  case (ParenExpr n X)
  then obtain s1 where "updateExprType p X t final s = Inr s1" by auto
  then show ?case
    using updateExprType_record_total [of p "ParenExpr n X" _ t final s1]
    by (auto simp: updateExprType_Paren split: option.splits)
next
  case (UnaryExpr n opr X)
  then obtain s1 where "updateExprType p X t final s = Inr s1" by auto
  then show ?case
    using updateExprType_record_total [of p "UnaryExpr n opr X" _ t final s1]
      updateExprType_record_total [of p "UnaryExpr n opr X" _ t final s]
    by (auto simp: updateExprType_Unary split: option.splits)
next
  case (BinaryExpr n X opr Y)
  let ?e = "BinaryExpr n X opr Y"
  show ?case
  proof (cases "untyped s n")
    case None
    then show ?thesis by (simp add: updateExprType_Binary)
  next
    case (Some old)
    have "\<exists>s1. (if info_val old \<noteq> None \<or> isComparison opr then Inr s
                 else if isShift opr then updateExprType p X t final s
                 else thenP (updateExprType p X t final s) (updateExprType p Y t final)) = Inr s1"
    proof (cases "info_val old \<noteq> None \<or> isComparison opr")
      case True
      then show ?thesis by auto
    next
      case False
      with BinaryExpr.prems have cx: "can_be_untyped X" and cy: "isShift opr \<or> can_be_untyped Y"
        by auto
      from BinaryExpr.IH(1) [OF cx] obtain s0 where x: "updateExprType p X t final s = Inr s0"
        by blast
      show ?thesis
      proof (cases "isShift opr")
        case True
        with False x show ?thesis by auto
      next
        case ns: False
        with cy BinaryExpr.IH(2) obtain s1 where "updateExprType p Y t final s0 = Inr s1"
          by blast
        with False ns x show ?thesis by auto
      qed
    qed
    then obtain s1 where "(if info_val old \<noteq> None \<or> isComparison opr then Inr s
                 else if isShift opr then updateExprType p X t final s
                 else thenP (updateExprType p X t final s) (updateExprType p Y t final)) = Inr s1" ..
    then show ?thesis
      using Some updateExprType_record_total [of p ?e old t final s1]
      by (simp add: updateExprType_Binary)
  qed
qed (auto simp: updateExprType_leaf split: option.splits intro: updateExprType_record_total)

lemma updateExprType_tracked:
  assumes "untyped s (node x) = Some old" and "can_be_untyped x"
  shows "\<exists>s1. updateExprType p x t final s = updateExprType_record p x old t final s1
            \<and> (\<exists>es. errors s1 = errors s @ es)
            \<and> (\<forall>m. m \<notin> set (tl (nodes x)) \<longrightarrow>
                  notified_for m s1 = notified_for m s \<and> untyped s1 m = untyped s m)"
proof (cases x)
  case (ParenExpr n X)
  with assms obtain s1 where 1: "updateExprType p X t final s = Inr s1"
    using updateExprType_total [of X p t final s] by auto
  from updateExprType_frame [OF 1] 1 show ?thesis
    using assms(1) ParenExpr by (intro exI [of _ s1]) (simp add: updateExprType_Paren)
next
  case (UnaryExpr n opr X)
  with assms obtain s1 where 1: "updateExprType p X t final s = Inr s1"
    using updateExprType_total [of X p t final s] by auto
  show ?thesis
  proof (cases "info_val old \<noteq> None")
    case True
    then show ?thesis using assms(1) UnaryExpr
      by (intro exI [of _ s]) (simp add: updateExprType_Unary)
  next
    case False
    with updateExprType_frame [OF 1] 1 show ?thesis
      using assms(1) UnaryExpr by (intro exI [of _ s1]) (simp add: updateExprType_Unary)
  qed
next
  case (BinaryExpr n X opr Y)
  show ?thesis
  proof (cases "info_val old \<noteq> None \<or> isComparison opr")
    case True
    then show ?thesis using assms(1) BinaryExpr
      by (intro exI [of _ s]) (auto simp: updateExprType_Binary)
  next
    case False
    with assms(2) BinaryExpr have cx: "can_be_untyped X" and cy: "isShift opr \<or> can_be_untyped Y"
      by auto
    from updateExprType_total [OF cx] obtain s0 where x: "updateExprType p X t final s = Inr s0"
      by blast
    show ?thesis
    proof (cases "isShift opr")
      case True
      with False updateExprType_frame [OF x] x show ?thesis
        using assms(1) BinaryExpr by (intro exI [of _ s0]) (simp add: updateExprType_Binary)
    next
      case ns: False
      with cy updateExprType_total obtain s1 where y: "updateExprType p Y t final s0 = Inr s1"
        by blast
      from updateExprType_frame [OF x] updateExprType_frame [OF y]
      have "(\<exists>es. errors s1 = errors s @ es)
            \<and> (\<forall>m. m \<notin> set (nodes X) \<union> set (nodes Y) \<longrightarrow>
                  notified_for m s1 = notified_for m s \<and> untyped s1 m = untyped s m)"
        by auto
      with False ns x y show ?thesis
        using assms(1) BinaryExpr by (intro exI [of _ s1]) (simp add: updateExprType_Binary)
    qed
  qed
qed (use assms in \<open>auto simp: updateExprType_leaf\<close>)


lemma nodes_hd: "nodes x = node x # tl (nodes x)"
  by (cases x) simp_all

lemma updateExprType_record_final:
  assumes "final \<or> \<not> isUntyped t"
  shows "updateExprType_record p x old t final s =
     (if isLhs old \<and> \<not> isInteger t then
        Inr (invalidOp (node x) ''shifted operand %s (type %s) must be integer''
               (s\<lparr>untyped := (untyped s)(node x := None)\<rparr>))
      else if has_Expr (check_ctxt p) then
        Inr (s\<lparr>untyped := (untyped s)(node x := None),
               notified := notified s @ [(node x, t, info_val old)]\<rparr>)
      else Inr (s\<lparr>untyped := (untyped s)(node x := None)\<rparr>))"
  using assms by (auto simp: updateExprType_record_def Let_def)

text \<open>
  Claim C2. When \<^verbatim>\<open>updateExprType\<close> gives a tracked node its final type (the type
  is final or no longer untyped): the entry is removed; if the entry was flagged as the
  left operand of a non-constant shift and the type is not an integer type, an error is
  reported and no notification is made for the node; otherwise the notification is made
  exactly once for the node (when a callback is installed). A node without an entry is a
  no-op. The node is one that can be untyped, and the nodes of its tree are distinct.
\<close>

theorem updateExprType_finalizes:
  "(untyped s (node x) = None \<longrightarrow> updateExprType p x t final s = Inr s)
 \<and> (\<forall>old. untyped s (node x) = Some old \<and> (final \<or> \<not> isUntyped t)
        \<and> can_be_untyped x \<and> distinct (nodes x) \<longrightarrow>
      (\<exists>s'. updateExprType p x t final s = Inr s' \<and> untyped s' (node x) = None
          \<and> (if isLhs old \<and> \<not> isInteger t
              then length (errors s) < length (errors s')
                 \<and> last (errors s') =
                     InvalidOp (node x) ''shifted operand %s (type %s) must be integer''
                 \<and> notified_for (node x) s' = notified_for (node x) s
              else notified_for (node x) s' =
                     notified_for (node x) s
                     @ (if has_Expr (check_ctxt p) then [(node x, t, info_val old)] else []))))"
proof (intro conjI allI impI)
  assume "untyped s (node x) = None"
  then show "updateExprType p x t final s = Inr s" by (rule updateExprType_untracked)
next
  fix old
  assume a: "untyped s (node x) = Some old \<and> (final \<or> \<not> isUntyped t)
        \<and> can_be_untyped x \<and> distinct (nodes x)"
  then have tr: "untyped s (node x) = Some old" and fin: "final \<or> \<not> isUntyped t"
    and cu: "can_be_untyped x" and di: "distinct (nodes x)" by auto
  from di have notin: "node x \<notin> set (tl (nodes x))"
    by (subst (asm) nodes_hd) simp
  from updateExprType_tracked [OF tr cu, of p t final] obtain s1 es where
    eq: "updateExprType p x t final s = updateExprType_record p x old t final s1"
    and er: "errors s1 = errors s @ es"
    and fr: "\<forall>m. m \<notin> set (tl (nodes x)) \<longrightarrow>
                  notified_for m s1 = notified_for m s \<and> untyped s1 m = untyped s m"
    by blast
  from fr notin have nf: "notified_for (node x) s1 = notified_for (node x) s" by blast
  show "\<exists>s'. updateExprType p x t final s = Inr s' \<and> untyped s' (node x) = None
          \<and> (if isLhs old \<and> \<not> isInteger t
              then length (errors s) < length (errors s')
                 \<and> last (errors s') =
                     InvalidOp (node x) ''shifted operand %s (type %s) must be integer''
                 \<and> notified_for (node x) s' = notified_for (node x) s
              else notified_for (node x) s' =
                     notified_for (node x) s
                     @ (if has_Expr (check_ctxt p) then [(node x, t, info_val old)] else []))"
    unfolding eq updateExprType_record_final [OF fin]
    using er nf by (auto simp: invalidOp_def notified_for_def)
qed


text \<open>The tree of \<^verbatim>\<open>1 << s\<close> with the shift and its left operand tracked, the
  latter flagged: with the final type \<^verbatim>\<open>float64\<close> the shift is notified once and
  the operand is rejected; the untracked count is left alone.\<close>

theorem updateExprType_finalizes_witness:
  "(\<exists>s'. updateExprType (table_pkg (\<lambda>e. const_int e 0)) shift_tree (Basic Float64) True shift_tracked = Inr s'
       \<and> untyped s' 1 = None \<and> notified_for 1 s' = [(1, Basic Float64, None)])
 \<and> (\<exists>s'. updateExprType (table_pkg (\<lambda>e. const_int e 0)) (BasicLit 2) (Basic Float64) True shift_tracked = Inr s'
       \<and> untyped s' 2 = None
       \<and> last (errors s') = InvalidOp 2 ''shifted operand %s (type %s) must be integer''
       \<and> notified_for 2 s' = [])
 \<and> updateExprType (table_pkg (\<lambda>e. const_int e 0)) (Ident 3) (Basic Float64) True shift_tracked
      = Inr shift_tracked"
  using updateExprType_finalizes [of shift_tracked shift_tree "table_pkg (\<lambda>e. const_int e 0)" "Basic Float64" True]
    updateExprType_finalizes [of shift_tracked "BasicLit 2" "table_pkg (\<lambda>e. const_int e 0)" "Basic Float64" True]
    updateExprType_finalizes [of shift_tracked "Ident 3" "table_pkg (\<lambda>e. const_int e 0)" "Basic Float64" True]
  by (auto simp: shift_tree_def shift_tracked_def checker0_def ctxt64_def
      isShift_def isComparison_def isInteger_def isUntyped_def has_kind_def
      integer_kinds_def untyped_kinds_def notified_for_def)
section \<open>Conversion of untyped operands and shifts\<close>

lemma updateExprType_record_nonfinal:
  assumes "isUntyped t" "updateExprType_record p x old t False s = Inr s'"
  shows "errors s' = errors s \<and> notified s' = notified s"
  using assms by (auto simp: updateExprType_record_def split: Type.splits)

lemma updateExprType_nonfinal:
  "isUntyped t \<Longrightarrow> updateExprType p x t False s = Inr s' \<Longrightarrow>
     errors s' = errors s \<and> notified s' = notified s"
proof (induction x arbitrary: s s')
  case (ParenExpr n X)
  show ?case
  proof (cases "untyped s n")
    case None
    with ParenExpr.prems show ?thesis by (simp add: updateExprType_Paren)
  next
    case (Some old)
    with ParenExpr.prems obtain s1 where
      1: "updateExprType p X t False s = Inr s1" and
      2: "updateExprType_record p (ParenExpr n X) old t False s1 = Inr s'"
      by (auto simp: updateExprType_Paren thenP_Inr_iff)
    from ParenExpr.IH [OF ParenExpr.prems(1) 1] updateExprType_record_nonfinal [OF ParenExpr.prems(1) 2]
    show ?thesis by simp
  qed
next
  case (UnaryExpr n opr X)
  show ?case
  proof (cases "untyped s n")
    case None
    with UnaryExpr.prems show ?thesis by (simp add: updateExprType_Unary)
  next
    case (Some old)
    with UnaryExpr.prems obtain s1 where
      1: "s1 = s \<or> updateExprType p X t False s = Inr s1" and
      2: "updateExprType_record p (UnaryExpr n opr X) old t False s1 = Inr s'"
      by (auto simp: updateExprType_Unary thenP_Inr_iff split: if_splits)
    from 1 UnaryExpr.IH [OF UnaryExpr.prems(1), of s s1]
      updateExprType_record_nonfinal [OF UnaryExpr.prems(1) 2]
    show ?thesis by auto
  qed
next
  case (BinaryExpr n X opr Y)
  show ?case
  proof (cases "untyped s n")
    case None
    with BinaryExpr.prems show ?thesis by (simp add: updateExprType_Binary)
  next
    case (Some old)
    with BinaryExpr.prems obtain s1 where
      1: "s1 = s \<or> updateExprType p X t False s = Inr s1
           \<or> (\<exists>s0. updateExprType p X t False s = Inr s0 \<and> updateExprType p Y t False s0 = Inr s1)" and
      2: "updateExprType_record p (BinaryExpr n X opr Y) old t False s1 = Inr s'"
      by (auto simp: updateExprType_Binary thenP_Inr_iff split: if_splits)
    from 1 have "errors s1 = errors s \<and> notified s1 = notified s"
      using BinaryExpr.IH(1) [OF BinaryExpr.prems(1)] BinaryExpr.IH(2) [OF BinaryExpr.prems(1)]
      by (elim disjE exE conjE) fastforce+
    with updateExprType_record_nonfinal [OF BinaryExpr.prems(1) 2]
    show ?thesis by simp
  qed
qed (auto simp: updateExprType_leaf updateExprType_never updateExprType_Ellipsis
       split: option.splits if_splits dest!: updateExprType_record_nonfinal)

lemma updateExprType_record_final_untyped:
  assumes "updateExprType_record p x old t True s = Inr s'"
  shows "untyped s' = (untyped s)(node x := None)"
  using assms by (auto simp: updateExprType_record_def Let_def invalidOp_def split: if_splits)

lemma updateExprType_final_shrinks:
  "updateExprType p x t True s = Inr s' \<Longrightarrow>
     (\<forall>m. untyped s' m = None \<or> untyped s' m = untyped s m)"
proof (induction x arbitrary: s s')
  case (ParenExpr n X)
  show ?case
  proof (cases "untyped s n")
    case None
    with ParenExpr.prems show ?thesis by (simp add: updateExprType_Paren)
  next
    case (Some old)
    with ParenExpr.prems obtain s1 where
      1: "updateExprType p X t True s = Inr s1" and
      2: "updateExprType_record p (ParenExpr n X) old t True s1 = Inr s'"
      by (auto simp: updateExprType_Paren thenP_Inr_iff)
    from ParenExpr.IH [OF 1] updateExprType_record_final_untyped [OF 2]
    show ?thesis by auto
  qed
next
  case (UnaryExpr n opr X)
  show ?case
  proof (cases "untyped s n")
    case None
    with UnaryExpr.prems show ?thesis by (simp add: updateExprType_Unary)
  next
    case (Some old)
    with UnaryExpr.prems obtain s1 where
      1: "s1 = s \<or> updateExprType p X t True s = Inr s1" and
      2: "updateExprType_record p (UnaryExpr n opr X) old t True s1 = Inr s'"
      by (auto simp: updateExprType_Unary thenP_Inr_iff split: if_splits)
    from 1 UnaryExpr.IH [of s s1] updateExprType_record_final_untyped [OF 2]
    show ?thesis by auto
  qed
next
  case (BinaryExpr n X opr Y)
  show ?case
  proof (cases "untyped s n")
    case None
    with BinaryExpr.prems show ?thesis by (simp add: updateExprType_Binary)
  next
    case (Some old)
    with BinaryExpr.prems obtain s1 where
      1: "s1 = s \<or> updateExprType p X t True s = Inr s1
           \<or> (\<exists>s0. updateExprType p X t True s = Inr s0 \<and> updateExprType p Y t True s0 = Inr s1)" and
      2: "updateExprType_record p (BinaryExpr n X opr Y) old t True s1 = Inr s'"
      by (auto simp: updateExprType_Binary thenP_Inr_iff split: if_splits)
    from 1 have "\<forall>m. untyped s1 m = None \<or> untyped s1 m = untyped s m"
    proof (elim disjE exE conjE)
      assume "s1 = s" then show ?thesis by simp
    next
      assume "updateExprType p X t True s = Inr s1"
      from BinaryExpr.IH(1) [OF this] show ?thesis .
    next
      fix s0 assume a: "updateExprType p X t True s = Inr s0" and b: "updateExprType p Y t True s0 = Inr s1"
      from BinaryExpr.IH(1) [OF a] BinaryExpr.IH(2) [OF b] show ?thesis by metis
    qed
    with updateExprType_record_final_untyped [OF 2]
    show ?thesis by auto
  qed
qed (auto simp: updateExprType_leaf updateExprType_never updateExprType_Ellipsis
       split: option.splits if_splits dest!: updateExprType_record_final_untyped)

lemma updateExprType_final_removes:
  assumes "can_be_untyped x" "updateExprType p x t True s = Inr s'"
  shows "untyped s' (node x) = None"
proof (cases "untyped s (node x)")
  case None
  with assms(2) show ?thesis by (simp add: updateExprType_untracked)
next
  case (Some old)
  from updateExprType_tracked [OF Some assms(1), of p t True] assms(2)
  obtain s1 where "updateExprType_record p x old t True s1 = Inr s'" by auto
  from updateExprType_record_final_untyped [OF this] show ?thesis by simp
qed


lemma isRepresentable_props:
  assumes "isRepresentable p x k s = Inr (x', s')"
  shows "val x' = val x \<and> expr x' = expr x \<and> typ x' = typ x
       \<and> (mode x' = mode x \<and> s' = s \<or> mode x' = invalid \<and> (\<exists>d. errors s' = errors s @ [d]))"
  using assms
  by (auto simp: isRepresentable_def Let_def errorf_def split: if_splits option.splits)

lemma convertUntyped_final_props:
  assumes "convertUntyped_final p x target s = Inr (x', s')"
  shows "x' = x\<lparr>typ := target\<rparr> \<and> updateExprType p (expr x) target True s = Inr s'"
  using assms by (auto simp: convertUntyped_final_def thenP_Inr_iff)

lemma convertUntyped_props:
  assumes "convertUntyped p x target s = Inr (x', s')"
  shows "val x' = val x \<and> expr x' = expr x \<and> (mode x' = mode x \<or> mode x' = invalid)
       \<and> (\<exists>es. errors s' = errors s @ es)"
proof (cases "mode x = invalid \<or> \<not> isUntyped (typ x)")
  case True
  with assms show ?thesis by (auto simp: convertUntyped_def)
next
  case False
  show ?thesis
  proof (cases "isUntyped target")
    case True
    with False assms show ?thesis
      by (auto simp: convertUntyped_def convertUntyped_Error_def errorf_def thenP_Inr_iff
          split: Type.splits if_splits dest!: updateExprType_frame)
  next
    case nt: False
    have fin: "\<And>y tg s0. convertUntyped_final p y tg s0 = Inr (x', s') \<Longrightarrow>
        val x' = val y \<and> expr x' = expr y \<and> mode x' = mode y \<and> (\<exists>es. errors s' = errors s0 @ es)"
      by (auto dest!: convertUntyped_final_props updateExprType_frame)
    show ?thesis
    proof (cases "Underlying target")
      case (Basic k)
      with False nt assms obtain x1 s1 where
        1: "isRepresentable p x k s = Inr (x1, s1)" and
        2: "if mode x1 = invalid then (x', s') = (x1, s1) else convertUntyped_final p x1 target s1 = Inr (x', s')"
        by (auto simp: convertUntyped_def thenP_Inr_iff split: if_splits)
      from isRepresentable_props [OF 1] 2 fin [of x1 target s1] show ?thesis
        by (auto split: if_splits)
    qed (use False nt assms fin in \<open>auto simp: convertUntyped_def convertUntyped_Error_def errorf_def
          split: if_splits\<close>)
  qed
qed

lemma convertUntyped_untyped_target:
  assumes "isUntyped target" "convertUntyped p x target s = Inr (x', s')"
  shows "errors s' = errors s \<or> mode x' = invalid"
  using assms
  by (auto simp: convertUntyped_def convertUntyped_Error_def thenP_Inr_iff
      split: Type.splits if_splits dest: updateExprType_nonfinal)

lemma isUntyped_UntypedInt [simp]: "isUntyped (Basic UntypedInt)"
  by (simp add: isUntyped_def has_kind_def untyped_kinds_def)

lemma shift_count_props:
  assumes "shift_count p y s = Inr (ok, y1, s1)"
  shows "val y1 = val y \<and> expr y1 = expr y \<and> (\<exists>es. errors s1 = errors s @ es)
       \<and> (ok \<longrightarrow> mode y1 = mode y)
       \<and> (errors s1 \<noteq> errors s \<longrightarrow> \<not> ok)"
proof -
  consider (u) "isInteger (typ y) \<and> isUnsigned (typ y)"
    | (c) "\<not> (isInteger (typ y) \<and> isUnsigned (typ y))" "isUntyped (typ y)"
    | (d) "\<not> (isInteger (typ y) \<and> isUnsigned (typ y))" "\<not> isUntyped (typ y)"
    by blast
  then show ?thesis
  proof cases
    case u
    with assms show ?thesis by (auto simp: shift_count_def)
  next
    case c
    with assms have cv: "convertUntyped p y (Basic UntypedInt) s = Inr (y1, s1)"
      and ok: "ok = (mode y1 \<noteq> invalid)"
      by (auto simp: shift_count_def thenP_Inr_iff)
    from convertUntyped_props [OF cv] convertUntyped_untyped_target [OF _ cv] ok
    show ?thesis by auto
  next
    case d
    with assms show ?thesis by (auto simp: shift_count_def invalidOp_def)
  qed
qed

lemma shift_operands_props:
  assumes "shift_operands p u x y opr s = Inr (x', s')"
  shows "(\<exists>es. errors s' = errors s @ es) \<and> (errors s' \<noteq> errors s \<longrightarrow> mode x' = invalid)
       \<and> (typ x' = typ x \<or> typ x' = Basic UntypedInt)"
  using assms
  by (auto simp: shift_operands_def Let_def invalidOp_def
      split: if_splits option.splits prod.splits)

lemma shift_props:
  assumes "shift p x y opr s = Inr (x', s')"
  shows "(\<exists>es. errors s' = errors s @ es) \<and> (errors s' \<noteq> errors s \<longrightarrow> mode x' = invalid)
       \<and> (typ x' = typ x \<or> typ x' = Basic UntypedInt)"
proof -
  from assms obtain bad where b: "shift_lhs_bad p x = Inr bad"
    by (auto simp: shift_def Let_def thenP_Inr_iff)
  show ?thesis
  proof (cases bad)
    case True
    with assms b show ?thesis by (auto simp: shift_def Let_def invalidOp_def)
  next
    case False
    with assms b obtain ok y1 s1 where c: "shift_count p y s = Inr (ok, y1, s1)"
      and r: "if \<not> ok then (x', s') = (x\<lparr>mode := invalid\<rparr>, s1)
              else shift_operands p (isUntyped (typ x)) x y1 opr s1 = Inr (x', s')"
      by (auto simp: shift_def Let_def thenP_Inr_iff split: if_splits)
    show ?thesis
    proof (cases ok)
      case True
      with r have so: "shift_operands p (isUntyped (typ x)) x y1 opr s1 = Inr (x', s')" by simp
      from shift_count_props [OF c] True have "errors s1 = errors s" by auto
      with shift_operands_props [OF so] show ?thesis by auto
    next
      case False
      with r shift_count_props [OF c] show ?thesis by auto
    qed
  qed
qed


section \<open>Constant shifts\<close>

lemma convertUntyped_UntypedInt_numeric:
  assumes "isUntyped (typ y)" "isNumeric (typ y)" "typ y = Basic k" "mode y \<noteq> invalid"
  shows "convertUntyped p y (Basic UntypedInt) s = Inr (y, s)"
proof -
  from assms have "k \<in> untyped_kinds" "k \<in> numeric_kinds"
    by (simp_all add: isUntyped_def isNumeric_def has_kind_def)
  then have "\<not> kind_rank k < kind_rank UntypedInt"
    by (auto simp: untyped_kinds_def numeric_kinds_def integer_kinds_def)
  moreover have "isNumeric (Basic UntypedInt)"
    by (simp add: isNumeric_def has_kind_def numeric_kinds_def integer_kinds_def)
  ultimately show ?thesis using assms by (simp add: convertUntyped_def)
qed

lemma Uint64Val_too_large:
  "(\<not> snd (Uint64Val c) \<or> stupidShift \<le> fst (Uint64Val c))
     = (\<forall>i. c = intVal i \<longrightarrow> i < 0 \<or> 1024 \<le> i)"
proof (cases c)
  case (intVal i)
  show ?thesis
  proof (cases "0 \<le> i \<and> i \<le> 2 ^ 64 - 1")
    case True
    then have "uint (word_of_int i :: 64 word) = i"
      by (simp add: uint_word_of_int take_bit_int_eq_self)
    then have "((1024 :: 64 word) \<le> word_of_int i) = (1024 \<le> i)"
      by (simp add: word_le_def)
    with True intVal show ?thesis by (simp add: stupidShift_def)
  next
    case False
    with intVal show ?thesis by auto
  qed
qed simp_all




section \<open>Invalid operands\<close>

lemma rawExpr_record_invalid:
  "mode x = invalid \<Longrightarrow> rawExpr_record c x s = Inr (x, s)"
  by (simp add: rawExpr_record_def isUntyped_def has_kind_def untyped_kinds_def)



lemma string_shift_operands:
  "binary (table_pkg string_shift_table) (BasicLit 1) (BasicLit 2) token_SHL checker0 =
    shift (table_pkg string_shift_table) (const_string (BasicLit 1) ''a'') (const_int (BasicLit 2) 1)
      token_SHL
      (checker0\<lparr>untyped :=
         [1 \<mapsto> \<lparr>isLhs = False, info_typ = UntypedString, info_val = Some (stringVal ''a'')\<rparr>,
          2 \<mapsto> \<lparr>isLhs = False, info_typ = UntypedInt, info_val = Some (intVal 1)\<rparr>]\<rparr>)"
  by (simp add: binary_def binary_operands_def string_shift_table_def rawExpr_record_def
      const_string_def const_int_def checker0_def isUntyped_def has_kind_def untyped_kinds_def
      isShift_def ctxt64_def)


section \<open>Division by a constant zero\<close>

lemma zero_divisor_const:
  "opr = token_QUO \<or> opr = token_REM \<Longrightarrow> mode y = constant \<Longrightarrow> val y = Some d \<Longrightarrow>
     zero_divisor y opr = Inr (Sign d = 0)"
  by (auto simp: zero_divisor_def)

lemma not_cmp_shift:
  "opr = token_QUO \<or> opr = token_REM \<Longrightarrow> \<not> isShift opr \<and> \<not> isComparison opr"
  by (auto simp: isShift_def isComparison_def)

lemma check_op_QUO_REM:
  "opr = token_QUO \<or> opr = token_REM \<Longrightarrow>
   check_op binaryOpPredicates x opr s =
     (if (if opr = token_QUO then isNumeric (typ x) else isInteger (typ x)) then (True, s)
      else (False, invalidOp (pos x) ''operator %s not defined for %s'' s))"
  by (auto simp: check_op_def binaryOpPredicates_def)

lemma binary_arith_zero:
  assumes q: "opr = token_QUO \<or> opr = token_REM"
    and c: "mode y = constant" "val y = Some d" "Sign d = 0"
  shows "binary_arith p x y opr s =
    (if \<not> IsIdentical (typ x) (typ y) then
       Inr (x\<lparr>mode := invalid\<rparr>,
            if typ x \<noteq> Basic Invalid \<and> typ y \<noteq> Basic Invalid
            then invalidOp (pos x) ''mismatched types %s and %s'' s
            else s)
     else if \<not> (if opr = token_QUO then isNumeric (typ x) else isInteger (typ x)) then
       Inr (x\<lparr>mode := invalid\<rparr>, invalidOp (pos x) ''operator %s not defined for %s'' s)
     else Inr (x\<lparr>mode := invalid\<rparr>, invalidOp (pos y) ''division by zero'' s))"
proof -
  have z: "zero_divisor y opr = Inr True"
    using zero_divisor_const [OF q c(1,2)] c(3) by simp
  show ?thesis unfolding binary_arith_def check_op_QUO_REM [OF q] z by simp
qed

lemma binary_arith_zero_invalid:
  assumes "opr = token_QUO \<or> opr = token_REM"
    and "mode y = constant" "val y = Some d" "Sign d = 0"
    and "binary_arith p x y opr s = Inr (x', s')"
  shows "mode x' = invalid"
  using assms(5) unfolding binary_arith_zero [OF assms(1-4)]
  by (auto split: if_splits)

lemma binary_operands_zero:
  assumes q: "opr = token_QUO \<or> opr = token_REM"
    and c: "mode y = constant" "val y = Some d" "Sign d = 0"
  shows "(\<forall>x' s'. binary_operands p x y opr s = Inr (x', s') \<longrightarrow> mode x' = invalid)
       \<and> (\<forall>x1 s1 y1 s2.
             mode x \<noteq> invalid \<and> convertUntyped p x (typ y) s = Inr (x1, s1) \<and> mode x1 \<noteq> invalid
           \<and> convertUntyped p y (typ x1) s1 = Inr (y1, s2) \<and> mode y1 \<noteq> invalid
           \<and> IsIdentical (typ x1) (typ y1)
           \<and> (if opr = token_QUO then isNumeric (typ x1) else isInteger (typ x1)) \<longrightarrow>
             binary_operands p x y opr s
               = Inr (x1\<lparr>mode := invalid\<rparr>, invalidOp (pos y) ''division by zero'' s2))"
proof (intro conjI allI impI)
  fix x' s'
  assume r: "binary_operands p x y opr s = Inr (x', s')"
  have yv: "mode y \<noteq> invalid" using c(1) by simp
  show "mode x' = invalid"
  proof (cases "mode x = invalid")
    case True
    with r show ?thesis by (simp add: binary_operands_def)
  next
    case xv: False
    have nc: "isShift opr = False" "isComparison opr = False"
      using not_cmp_shift [OF q] by simp_all
    have ms: "(mode x = invalid) = False" "(mode y = invalid) = False"
      using xv yv by simp_all
    from r have
      r1: "thenP (convertUntyped p x (typ y) s)
         (\<lambda>(x1, s1).
           if mode x1 = invalid then Inr (x1, s1)
           else
             thenP (convertUntyped p y (typ x1) s1)
               (\<lambda>(y1, s2).
                 if mode y1 = invalid then Inr (x1\<lparr>mode := invalid\<rparr>, s2)
                 else binary_arith p x1 y1 opr s2)) = Inr (x', s')"
      unfolding binary_operands_def nc ms if_False .
    from thenP_Inr_pair [OF this] obtain x1 s1 where
      cx: "convertUntyped p x (typ y) s = Inr (x1, s1)" and
      r2: "(if mode x1 = invalid then Inr (x1, s1)
           else
             thenP (convertUntyped p y (typ x1) s1)
               (\<lambda>(y1, s2).
                 if mode y1 = invalid then Inr (x1\<lparr>mode := invalid\<rparr>, s2)
                 else binary_arith p x1 y1 opr s2)) = Inr (x', s')"
      by blast
    show ?thesis
    proof (cases "mode x1 = invalid")
      case True
      with r2 show ?thesis by auto
    next
      case x1v: False
      with r2 have "thenP (convertUntyped p y (typ x1) s1)
               (\<lambda>(y1, s2).
                 if mode y1 = invalid then Inr (x1\<lparr>mode := invalid\<rparr>, s2)
                 else binary_arith p x1 y1 opr s2) = Inr (x', s')" by simp
      from thenP_Inr_pair [OF this] obtain y1 s2 where
        cy: "convertUntyped p y (typ x1) s1 = Inr (y1, s2)" and
        r3: "(if mode y1 = invalid then Inr (x1\<lparr>mode := invalid\<rparr>, s2)
                 else binary_arith p x1 y1 opr s2) = Inr (x', s')"
        by blast
      from convertUntyped_props [OF cy] c
      have y1: "val y1 = Some d" "mode y1 = constant \<or> mode y1 = invalid" by auto
      show ?thesis
      proof (cases "mode y1 = invalid")
        case True
        with r3 show ?thesis by auto
      next
        case False
        with y1 have yc: "mode y1 = constant" by simp
        from False r3 have "binary_arith p x1 y1 opr s2 = Inr (x', s')" by simp
        from binary_arith_zero_invalid [OF q yc y1(1) c(3) this]
        show ?thesis .
      qed
    qed
  qed
next
  fix x1 s1 y1 s2
  assume h: "mode x \<noteq> invalid \<and> convertUntyped p x (typ y) s = Inr (x1, s1) \<and> mode x1 \<noteq> invalid
           \<and> convertUntyped p y (typ x1) s1 = Inr (y1, s2) \<and> mode y1 \<noteq> invalid
           \<and> IsIdentical (typ x1) (typ y1)
           \<and> (if opr = token_QUO then isNumeric (typ x1) else isInteger (typ x1))"
  from h have cx: "convertUntyped p x (typ y) s = Inr (x1, s1)" by (rule conjunct2 [THEN conjunct1])
  from h have cy: "convertUntyped p y (typ x1) s1 = Inr (y1, s2)"
    by (rule conjunct2 [THEN conjunct2, THEN conjunct2, THEN conjunct1])
  from h have mv: "mode x \<noteq> invalid" "mode x1 \<noteq> invalid" "mode y1 \<noteq> invalid"
    by (rule conjunct1, rule conjunct2 [THEN conjunct2, THEN conjunct1],
        rule conjunct2 [THEN conjunct2, THEN conjunct2, THEN conjunct2, THEN conjunct1])
  from h have id: "IsIdentical (typ x1) (typ y1)"
    by (rule conjunct2 [THEN conjunct2, THEN conjunct2, THEN conjunct2, THEN conjunct2, THEN conjunct1])
  from h have pr: "if opr = token_QUO then isNumeric (typ x1) else isInteger (typ x1)"
    by (rule conjunct2 [THEN conjunct2, THEN conjunct2, THEN conjunct2, THEN conjunct2, THEN conjunct2])
  from convertUntyped_props [OF cy]
  have "val y1 = val y" "expr y1 = expr y" "mode y1 = mode y \<or> mode y1 = invalid"
    by blast+
  with c mv have y1: "val y1 = Some d" "mode y1 = constant" "pos y1 = pos y"
    by (simp_all add: pos_def)
  have nc: "isShift opr = False" "isComparison opr = False"
    using not_cmp_shift [OF q] by simp_all
  have ms: "(mode x = invalid) = False" "(mode y = invalid) = False"
    using mv c(1) by simp_all
  have "binary_operands p x y opr s = binary_arith p x1 y1 opr s2"
    unfolding binary_operands_def nc ms if_False using cx cy mv by simp
  also have "\<dots> = Inr (x1\<lparr>mode := invalid\<rparr>, invalidOp (pos y) ''division by zero'' s2)"
    unfolding binary_arith_zero [OF q y1(2) y1(1) c(3)] using id pr y1(3) by simp
  finally show "binary_operands p x y opr s
               = Inr (x1\<lparr>mode := invalid\<rparr>, invalidOp (pos y) ''division by zero'' s2)" .
qed

text \<open>
  Claim C4. For a division or remainder whose right operand is a constant of value zero,
  \<^verbatim>\<open>binary\<close> never returns a valid operand: the result's mode is invalid, so the
  operation is neither folded nor left to run time. Where the operands are valid and
  convert to one type for which the operator is defined, the diagnostic reported is
  the division by zero, at the divisor.
\<close>

theorem division_by_zero:
  assumes "opr = token_QUO \<or> opr = token_REM"
    and "check_expr p lhs s = Inr (x, sx)" "check_expr p rhs sx = Inr (y, sy)"
    and "mode y = constant" "val y = Some d" "Sign d = 0"
  shows "(\<forall>x' s'. binary p lhs rhs opr s = Inr (x', s') \<longrightarrow> mode x' = invalid)
       \<and> (\<forall>x1 s1 y1 s2.
             mode x \<noteq> invalid \<and> convertUntyped p x (typ y) sy = Inr (x1, s1) \<and> mode x1 \<noteq> invalid
           \<and> convertUntyped p y (typ x1) s1 = Inr (y1, s2) \<and> mode y1 \<noteq> invalid
           \<and> IsIdentical (typ x1) (typ y1)
           \<and> (if opr = token_QUO then isNumeric (typ x1) else isInteger (typ x1)) \<longrightarrow>
             binary p lhs rhs opr s
               = Inr (x1\<lparr>mode := invalid\<rparr>, invalidOp (pos y) ''division by zero'' s2))"
proof -
  have e: "binary p lhs rhs opr s = binary_operands p x y opr sy"
    using assms(2,3) by (simp add: binary_def)
  show ?thesis unfolding e by (rule binary_operands_zero [OF assms(1) assms(4-6)])
qed


text \<open>\<^verbatim>\<open>x / 0\<close> for a variable \<open>x\<close> of type \<^verbatim>\<open>int64\<close>: both sides are
  notified of the type \<^verbatim>\<open>int64\<close>, and the division is rejected.\<close>

theorem division_by_zero_witness:
  "binary (table_pkg div_table) (Ident 1) (BasicLit 2) token_QUO checker0 =
     Inr (\<lparr>mode = invalid, expr = Ident 1, typ = Basic Int64, val = None\<rparr>,
          \<lparr>untyped = Map.empty,
           errors = [InvalidOp 2 ''division by zero''],
           notified = [(1, Basic Int64, None), (2, Basic Int64, Some (intVal 0))]\<rparr>)"
proof -
  let ?p = "table_pkg div_table"
  let ?x = "var_of (Ident 1) (Basic Int64)"
  let ?y = "const_int (BasicLit 2) 0"
  let ?sx = "checker0\<lparr>notified := [(1, Basic Int64, None)]\<rparr>"
  let ?sy = "?sx\<lparr>untyped := [2 \<mapsto> \<lparr>isLhs = False, info_typ = UntypedInt, info_val = Some (intVal 0)\<rparr>]\<rparr>"
  let ?s2 = "checker0\<lparr>notified := [(1, Basic Int64, None), (2, Basic Int64, Some (intVal 0))]\<rparr>"
  have kinds: "\<not> isUntyped (Basic Int64)" "isUntyped (Basic UntypedInt)" "isNumeric (Basic Int64)"
    "isNumeric (Basic UntypedInt)"
    by (simp_all add: isUntyped_def isNumeric_def has_kind_def untyped_kinds_def numeric_kinds_def
        integer_kinds_def)
  have ex: "check_expr ?p (Ident 1) checker0 = Inr (?x, ?sx)"
    by (simp add: div_table_def rawExpr_record_def var_of_def kinds ctxt64_def checker0_def)
  have ey: "check_expr ?p (BasicLit 2) ?sx = Inr (?y, ?sy)"
    by (simp add: div_table_def rawExpr_record_def const_int_def kinds ctxt64_def checker0_def)
  have cx: "convertUntyped ?p ?x (typ ?y) ?sy = Inr (?x, ?sy)"
    by (simp add: convertUntyped_def var_of_def kinds)
  have cy: "convertUntyped ?p ?y (typ ?x) ?sy = Inr (?y\<lparr>typ := Basic Int64\<rparr>, ?s2)"
    by (simp add: convertUntyped_def convertUntyped_final_def isRepresentable_def
        isRepresentableConst_def int64_switch_def var_of_def const_int_def kinds
        updateExprType_leaf updateExprType_record_def checker0_def ctxt64_def)
  from division_by_zero [of token_QUO ?p "Ident 1" checker0 ?x ?sx "BasicLit 2" ?y ?sy "intVal 0"]
    ex ey cx cy
  show ?thesis
    by (simp add: var_of_def const_int_def kinds IsIdentical_def invalidOp_def pos_def checker0_def)
qed
section \<open>Comparisons\<close>


section \<open>Checking constant indices with the table package\<close>

lemma representable_Int64_ctxt:
  "0 \<le> i \<Longrightarrow> i < 2 ^ 63 \<Longrightarrow> isRepresentableConst (intVal i) ctxt64 IntKind"
  using representable_Int [of ctxt64 i]
  by (simp add: ctxt64_def width_def)

lemma kind_facts [simp]:
  "isUntyped (Basic UntypedInt)" "\<not> isUntyped (Basic IntKind)" "isInteger (Basic IntKind)"
  "isNumeric (Basic IntKind)" "isNumeric (Basic UntypedInt)"
  by (simp_all add: isUntyped_def isInteger_def isNumeric_def has_kind_def untyped_kinds_def
      integer_kinds_def numeric_kinds_def)

lemma index_table_const:
  assumes "tab (BasicLit k) = const_int (BasicLit k) i" "0 \<le> i" "i < 2 ^ 63"
  shows "index (table_pkg tab) (BasicLit k) n s =
    (let s1 = s\<lparr>untyped := (untyped s)(k := None),
                 notified := notified s @ [(k, Basic IntKind, Some (intVal i))]\<rparr>
     in if 0 \<le> sint n \<and> sint n \<le> i
        then Inr ((word_of_int i, False), errorf k ''index %s is out of bounds'' s1)
        else Inr ((word_of_int i, True), s1))"
proof -
  let ?p = "table_pkg tab"
  let ?x = "const_int (BasicLit k) i"
  let ?s0 = "s\<lparr>untyped := (untyped s)(k \<mapsto> \<lparr>isLhs = False, info_typ = UntypedInt, info_val = Some (intVal i)\<rparr>)\<rparr>"
  let ?s1 = "s\<lparr>untyped := (untyped s)(k := None),
                 notified := notified s @ [(k, Basic IntKind, Some (intVal i))]\<rparr>"
  have e: "check_expr ?p (BasicLit k) s = Inr (?x, ?s0)"
    by (simp add: assms(1) rawExpr_record_def const_int_def)
  have r: "isRepresentable ?p ?x IntKind ?s0 = Inr (?x, ?s0)"
    using representable_Int64_ctxt [OF assms(2,3)]
    by (simp add: isRepresentable_def const_int_def)
  have u: "updateExprType ?p (BasicLit k) (Basic IntKind) True ?s0 = Inr ?s1"
    by (simp add: updateExprType_leaf updateExprType_record_def ctxt64_def)
  have c: "convertUntyped ?p ?x (Basic IntKind) ?s0 = Inr (?x\<lparr>typ := Basic IntKind\<rparr>, ?s1)"
  proof -
    have "convertUntyped ?p ?x (Basic IntKind) ?s0 =
        thenP (isRepresentable ?p ?x IntKind ?s0)
              (\<lambda>(x1, s1). if mode x1 = invalid then Inr (x1, s1)
                          else convertUntyped_final ?p x1 (Basic IntKind) s1)"
      by (simp add: convertUntyped_def const_int_def)
    also have "\<dots> = convertUntyped_final ?p ?x (Basic IntKind) ?s0"
      unfolding r by (simp add: const_int_def)
    also have "\<dots> = Inr (?x\<lparr>typ := Basic IntKind\<rparr>, ?s1)"
      using u by (simp add: convertUntyped_final_def const_int_def)
    finally show ?thesis .
  qed
  have s: "sint (word_of_int i :: 64 word) = i"
    using assms(2,3) by (intro sint_word64) simp_all
  show ?thesis
    unfolding index_def e thenP_simps prod.case c
    using assms(2,3) s by (simp add: const_int_def Let_def pos_def sgn_if)
qed

section \<open>Slice expressions\<close>

lemma slice_base_valid:
  assumes "slice_base x s = Inr (Some (x1, n, True), s')"
  shows "s' = s \<and> (mode x1 = value \<or> mode x1 = variable)
       \<and> (isString (typ x1) \<or> (\<exists>elt. Underlying (typ x1) = Slice elt))"
proof (cases "Underlying (typ x)")
  case (Basic k)
  with assms show ?thesis
    by (auto simp: slice_base_def thenP_Inr_iff isString_def has_kind_def
        split: if_splits option.splits)
next
  case (Array elt m)
  with assms show ?thesis
    by (auto simp: slice_base_def split: if_splits)
next
  case (Pointer b)
  with assms show ?thesis
    by (auto simp: slice_base_def split: Type.splits)
next
  case (Slice elt)
  with assms show ?thesis
    by (auto simp: slice_base_def)
qed (use assms in \<open>auto simp: slice_base_def\<close>)




section \<open>Map literals\<close>

lemma mapElts_append:
  "mapElts p key elt (xs @ ys) st s =
     (case mapElts p key elt xs st s of
        Inl e \<Rightarrow> Inl e
      | Inr (st1, s1) \<Rightarrow> mapElts p key elt ys st1 s1)"
  by (induction xs arbitrary: st s) (auto split: sum.splits)

lemma sub_checksD:
  assumes "sub_checks P p"
  shows "\<exists>x s' es. check_expr p e s = Inr (x, s') \<and> errors s' = errors s @ es \<and> (\<forall>d\<in>set es. P d)"
    and "\<exists>x s' es. check_exprWithHint p e t s = Inr (x, s') \<and> errors s' = errors s @ es \<and> (\<forall>d\<in>set es. P d)"
    and "\<exists>ok x' s' es. check_assignment p y t s = Inr (ok, x', s') \<and> errors s' = errors s @ es \<and> (\<forall>d\<in>set es. P d)"
  using assms unfolding sub_checks_def by blast+

text \<open>The value part of the body.\<close>

lemma mapElt_value:
  assumes sc: "sub_checks P p"
  shows "\<exists>x4 s4 es.
      thenP (check_exprWithHint p v elt s2)
        (\<lambda>(x3, s3). thenP (check_assignment p x3 elt s3)
          (\<lambda>(ok1, x4, s4).
             Inr ((vis1, x4),
                  if \<not> ok1 \<and> mode x4 \<noteq> invalid
                  then errorf (pos x4) ''cannot use %s as %s value in map literal'' s4
                  else s4))) = Inr ((vis1, x4), s4)
      \<and> errors s4 = errors s2 @ es
      \<and> (\<forall>d\<in>set es. P d \<or> \<not> duplicate_key d)"
proof -
  from sub_checksD(2) [OF sc, of v elt s2] obtain x3 s3 es3 where
    a: "check_exprWithHint p v elt s2 = Inr (x3, s3)" "errors s3 = errors s2 @ es3" "\<forall>d\<in>set es3. P d"
    by blast
  from sub_checksD(3) [OF sc, of x3 elt s3] obtain ok x4 s4 es4 where
    b: "check_assignment p x3 elt s3 = Inr (ok, x4, s4)" "errors s4 = errors s3 @ es4" "\<forall>d\<in>set es4. P d"
    by blast
  show ?thesis
    using a b by (auto simp: errorf_def duplicate_key_def)
qed

lemma mapElt_step:
  assumes sc: "sub_checks P p"
  shows "\<exists>vis' x' s' es. mapElt p key elt e (vis, x) s = Inr ((vis', x'), s')
       \<and> vis \<subseteq> vis' \<and> errors s' = errors s @ es
       \<and> (\<forall>n k v c. e = KeyValueExpr n k v \<and> const_key p key k c \<longrightarrow>
             Some c \<in> vis'
           \<and> (Some c \<in> vis \<longrightarrow> (\<exists>d\<in>set es. duplicate_key d))
           \<and> (Some c \<notin> vis \<longrightarrow> vis' = insert (Some c) vis \<and> (\<forall>d\<in>set es. P d \<or> \<not> duplicate_key d)))"
proof (cases "\<exists>n k v. e = KeyValueExpr n k v")
  case False
  then have "mapElt p key elt e (vis, x) s = Inr ((vis, x), errorf (node e) ''missing key in map literal'' s)"
    by (cases e) (simp_all add: mapElt_def)
  with False show ?thesis by (auto simp: errorf_def)
next
  case True
  then obtain n k v where e: "e = KeyValueExpr n k v" by blast
  from sub_checksD(1) [OF sc, of k s] obtain x1 s1 es1 where
    a: "check_expr p k s = Inr (x1, s1)" "errors s1 = errors s @ es1" "\<forall>d\<in>set es1. P d"
    by blast
  from sub_checksD(3) [OF sc, of x1 key s1] obtain ok x2 s2 es2 where
    b: "check_assignment p x1 key s1 = Inr (ok, x2, s2)" "errors s2 = errors s1 @ es2" "\<forall>d\<in>set es2. P d"
    by blast
  have ck: "\<And>c. const_key p key k c \<Longrightarrow> ok \<and> mode x2 = constant \<and> val x2 = Some c"
    using a(1) b(1) unfolding const_key_def by blast
  let ?vis1 = "if mode x2 = constant then insert (val x2) vis else vis"
  from mapElt_value [OF sc, of v elt s2 ?vis1] obtain x4 s4 es4 where
    c: "thenP (check_exprWithHint p v elt s2)
        (\<lambda>(x3, s3). thenP (check_assignment p x3 elt s3)
          (\<lambda>(ok1, x4, s4).
             Inr ((?vis1, x4),
                  if \<not> ok1 \<and> mode x4 \<noteq> invalid
                  then errorf (pos x4) ''cannot use %s as %s value in map literal'' s4
                  else s4))) = Inr ((?vis1, x4), s4)"
      "errors s4 = errors s2 @ es4" "\<forall>d\<in>set es4. P d \<or> \<not> duplicate_key d"
    by blast
  have m: "mapElt p key elt e (vis, x) s =
      (if \<not> ok then
         Inr ((vis, x2),
              if mode x2 \<noteq> invalid
              then errorf (pos x2) ''cannot use %s as %s key in map literal'' s2
              else s2)
       else if mode x2 = constant \<and> val x2 \<in> vis then
         Inr ((vis, x2), errorf (pos x2) ''duplicate key %s in map literal'' s2)
       else Inr ((?vis1, x4), s4))"
    unfolding e mapElt_def using a(1) b(1) c(1) by (simp add: Let_def)
  consider (rej) "\<not> ok" | (dup) "ok" "mode x2 = constant \<and> val x2 \<in> vis"
    | (acc) "ok" "\<not> (mode x2 = constant \<and> val x2 \<in> vis)" by blast
  then show ?thesis
  proof cases
    case rej
    with m ck a b e show ?thesis by (auto simp: errorf_def)
  next
    case dup
    with m ck a b e show ?thesis
      by (auto simp: errorf_def duplicate_key_def)
  next
    case acc
    with m have "mapElt p key elt e (vis, x) s = Inr ((?vis1, x4), s4)" by simp
    moreover have "errors s4 = errors s @ (es1 @ es2 @ es4)" using a b c by simp
    moreover have "\<forall>d\<in>set (es1 @ es2 @ es4). P d \<or> \<not> duplicate_key d"
      using a(3) b(3) c(3) by auto
    ultimately show ?thesis
      using acc ck e by (intro exI [of _ ?vis1] exI [of _ x4] exI [of _ s4] exI [of _ "es1 @ es2 @ es4"]) auto
  qed
qed


lemma mapElts_run:
  assumes sc: "sub_checks P p"
  shows "\<exists>vis' x' s' es. mapElts p key elt elts (vis, x) s = Inr ((vis', x'), s')
       \<and> vis \<subseteq> vis' \<and> errors s' = errors s @ es"
proof (induction elts arbitrary: vis x s)
  case Nil
  show ?case by simp
next
  case (Cons e elts)
  from mapElt_step [OF sc, of key elt e vis x s] obtain vis1 x1 s1 es1 where
    1: "mapElt p key elt e (vis, x) s = Inr ((vis1, x1), s1)" "vis \<subseteq> vis1" "errors s1 = errors s @ es1"
    by blast
  from Cons.IH [of vis1 x1 s1] obtain vis' x' s' es where
    2: "mapElts p key elt elts (vis1, x1) s1 = Inr ((vis', x'), s')" "vis1 \<subseteq> vis'" "errors s' = errors s1 @ es"
    by blast
  from 1 2 show ?case by (intro exI [of _ vis'] exI [of _ x'] exI [of _ s'] exI [of _ "es1 @ es"]) auto
qed

lemma mapElts_dup:
  assumes sc: "sub_checks P p"
  shows "Some c \<in> vis \<Longrightarrow> KeyValueExpr n k v \<in> set elts \<Longrightarrow> const_key p key k c \<Longrightarrow>
     mapElts p key elt elts (vis, x) s = Inr ((vis', x'), s') \<Longrightarrow>
     \<exists>d\<in>set (drop (length (errors s)) (errors s')). duplicate_key d"
proof (induction elts arbitrary: vis x s)
  case Nil
  then show ?case by simp
next
  case (Cons e elts)
  from mapElt_step [OF sc, of key elt e vis x s] obtain vis1 x1 s1 es1 where
    1: "mapElt p key elt e (vis, x) s = Inr ((vis1, x1), s1)" "vis \<subseteq> vis1" "errors s1 = errors s @ es1"
    and k: "\<forall>n k v c. e = KeyValueExpr n k v \<and> const_key p key k c \<longrightarrow>
             Some c \<in> vis1
           \<and> (Some c \<in> vis \<longrightarrow> (\<exists>d\<in>set es1. duplicate_key d))
           \<and> (Some c \<notin> vis \<longrightarrow> vis1 = insert (Some c) vis \<and> (\<forall>d\<in>set es1. P d \<or> \<not> duplicate_key d))"
    by blast
  from Cons.prems(4) 1(1) have r: "mapElts p key elt elts (vis1, x1) s1 = Inr ((vis', x'), s')"
    by simp
  from mapElts_run [OF sc, of key elt elts vis1 x1 s1] r obtain es where
    2: "errors s' = errors s1 @ es" by auto
  show ?case
  proof (cases "e = KeyValueExpr n k v")
    case True
    with k Cons.prems(1,3) obtain d where "d \<in> set es1" "duplicate_key d" by blast
    with 1(3) 2 show ?thesis by auto
  next
    case False
    with Cons.prems(2) have "KeyValueExpr n k v \<in> set elts" by simp
    from Cons.IH [OF _ this Cons.prems(3) r] 1(2) Cons.prems(1)
    obtain d where "d \<in> set (drop (length (errors s1)) (errors s'))" "duplicate_key d" by blast
    with 1(3) 2 show ?thesis by auto
  qed
qed

lemma mapElts_distinct:
  assumes sc: "sub_checks P p" and nd: "\<forall>d. P d \<longrightarrow> \<not> duplicate_key d"
  shows "(\<forall>e\<in>set elts. \<exists>n k v. e = KeyValueExpr n k v \<and> const_key p key k (kv e)) \<Longrightarrow>
     distinct (map kv elts) \<Longrightarrow> (\<forall>e\<in>set elts. Some (kv e) \<notin> vis) \<Longrightarrow>
     mapElts p key elt elts (vis, x) s = Inr ((vis', x'), s') \<Longrightarrow>
     \<forall>d\<in>set (drop (length (errors s)) (errors s')). \<not> duplicate_key d"
proof (induction elts arbitrary: vis x s)
  case Nil
  then show ?case by simp
next
  case (Cons e elts)
  from Cons.prems(1) obtain n k v where e: "e = KeyValueExpr n k v" "const_key p key k (kv e)"
    by auto
  from mapElt_step [OF sc, of key elt e vis x s] obtain vis1 x1 s1 es1 where
    1: "mapElt p key elt e (vis, x) s = Inr ((vis1, x1), s1)" "errors s1 = errors s @ es1"
    and k: "\<forall>n k v c. e = KeyValueExpr n k v \<and> const_key p key k c \<longrightarrow>
             Some c \<in> vis1
           \<and> (Some c \<in> vis \<longrightarrow> (\<exists>d\<in>set es1. duplicate_key d))
           \<and> (Some c \<notin> vis \<longrightarrow> vis1 = insert (Some c) vis \<and> (\<forall>d\<in>set es1. P d \<or> \<not> duplicate_key d))"
    by blast
  from Cons.prems(3) have "Some (kv e) \<notin> vis" by simp
  with k e have v1: "vis1 = insert (Some (kv e)) vis" and n1: "\<forall>d\<in>set es1. \<not> duplicate_key d"
    using nd by blast+
  from Cons.prems(4) 1(1) have r: "mapElts p key elt elts (vis1, x1) s1 = Inr ((vis', x'), s')"
    by simp
  from mapElts_run [OF sc, of key elt elts vis1 x1 s1] r obtain es where
    2: "errors s' = errors s1 @ es" by auto
  have "\<forall>e'\<in>set elts. Some (kv e') \<notin> vis1"
    using Cons.prems(2,3) v1 by (auto simp: image_iff)
  from Cons.IH [OF _ _ this r] Cons.prems(1,2)
  have "\<forall>d\<in>set (drop (length (errors s1)) (errors s')). \<not> duplicate_key d" by simp
  with n1 1(2) 2 show ?case by auto
qed

lemma mapElts_key_visited:
  assumes sc: "sub_checks P p" and ck: "const_key p key k c"
  shows "KeyValueExpr n k v \<in> set elts \<Longrightarrow>
     mapElts p key elt elts (vis, x) s = Inr ((vis', x'), s') \<Longrightarrow> Some c \<in> vis'"
proof (induction elts arbitrary: vis x s)
  case Nil
  then show ?case by simp
next
  case (Cons y ys)
  from mapElt_step [OF sc, of key elt y vis x s] obtain vis1 y1 s1 es1 where
    1: "mapElt p key elt y (vis, x) s = Inr ((vis1, y1), s1)"
    and k0: "\<forall>n k v c. y = KeyValueExpr n k v \<and> const_key p key k c \<longrightarrow>
             Some c \<in> vis1
           \<and> (Some c \<in> vis \<longrightarrow> (\<exists>d\<in>set es1. duplicate_key d))
           \<and> (Some c \<notin> vis \<longrightarrow> vis1 = insert (Some c) vis \<and> (\<forall>d\<in>set es1. P d \<or> \<not> duplicate_key d))"
    by blast
  from k0 have k: "\<And>n k v c. y = KeyValueExpr n k v \<Longrightarrow> const_key p key k c \<Longrightarrow> Some c \<in> vis1"
    by simp
  from Cons.prems(2) 1 have r': "mapElts p key elt ys (vis1, y1) s1 = Inr ((vis', x'), s')"
    by simp
  show ?case
  proof (cases "y = KeyValueExpr n k v")
    case True
    from k [OF True ck] have "Some c \<in> vis1" .
    with mapElts_run [OF sc, of key elt ys vis1 y1 s1] r' show ?thesis by auto
  next
    case False
    with Cons.prems(1) have "KeyValueExpr n k v \<in> set ys" by simp
    from Cons.IH [OF this r'] show ?thesis .
  qed
qed

lemma mapElts_two_keys:
  assumes sc: "sub_checks P p"
    and ij: "i < j" "j < length elts"
    and e1: "elts ! i = KeyValueExpr n1 k1 v1" and e2: "elts ! j = KeyValueExpr n2 k2 v2"
    and c1: "const_key p key k1 c" and c2: "const_key p key k2 c"
    and r: "mapElts p key elt elts (vis, x) s = Inr ((vis', x'), s')"
  shows "\<exists>d\<in>set (drop (length (errors s)) (errors s')). duplicate_key d"
proof -
  let ?pre = "take (Suc i) elts" and ?post = "drop (Suc i) elts"
  have sp: "elts = ?pre @ ?post" by simp
  from mapElts_run [OF sc, of key elt ?pre vis x s] obtain va xa sa esa where
    a: "mapElts p key elt ?pre (vis, x) s = Inr ((va, xa), sa)" "errors sa = errors s @ esa"
    by blast
  have "mapElts p key elt (?pre @ ?post) (vis, x) s = Inr ((vis', x'), s')"
    using r by simp
  then have b: "mapElts p key elt ?post (va, xa) sa = Inr ((vis', x'), s')"
    unfolding mapElts_append a(1) by simp
  have "i < length ?pre" using ij by simp
  moreover have "?pre ! i = elts ! i" by simp
  ultimately have first: "KeyValueExpr n1 k1 v1 \<in> set ?pre"
    using e1 nth_mem by metis
  have "j - Suc i < length ?post" "?post ! (j - Suc i) = elts ! j" using ij by auto
  then have second: "KeyValueExpr n2 k2 v2 \<in> set ?post"
    using e2 nth_mem by metis
  from mapElts_key_visited [OF sc c1 first a(1)] have inva: "Some c \<in> va" .
  from mapElts_dup [OF sc inva second c2 b]
  obtain d where d: "d \<in> set (drop (length (errors sa)) (errors s'))" "duplicate_key d" by blast
  from mapElts_run [OF sc, of key elt ?post va xa sa] b obtain esb where
    "errors s' = errors sa @ esb" by auto
  with a(2) d(1) have "d \<in> set (drop (length (errors s)) (errors s'))" by simp
  with d(2) show ?thesis by blast
qed



lemma rawExpr_record_const_int:
  "rawExpr_record ctxt64 (const_int e i) s =
     Inr (const_int e i,
          s\<lparr>untyped := (untyped s)(node e \<mapsto> \<lparr>isLhs = False, info_typ = UntypedInt, info_val = Some (intVal i)\<rparr>)\<rparr>)"
  by (simp add: rawExpr_record_def const_int_def isUntyped_def has_kind_def untyped_kinds_def)

lemma key_table_sub_checks: "sub_checks (\<lambda>d. False) (table_pkg (key_table f))"
  by (auto simp: sub_checks_def key_table_def rawExpr_record_const_int)

lemma key_table_const_key:
  "const_key (table_pkg (key_table f)) key k (intVal (f (node k)))"
  by (auto simp: const_key_def key_table_def rawExpr_record_const_int) (simp_all add: const_int_def)

section \<open>The length of an array or slice literal\<close>

lemma sint_succ:
  assumes "sint (w :: 64 word) = u" "u < 2 ^ 63 - 1" "0 \<le> u"
  shows "sint (w + 1) = u + 1"
proof -
  have "w = word_of_int u" using assms(1) by auto
  then have "w + 1 = word_of_int (u + 1)" by simp
  moreover have "sint (word_of_int (u + 1) :: 64 word) = u + 1"
    using assms(2,3) by (intro sint_word64) simp_all
  ultimately show ?thesis by simp
qed

lemma indexedElt_value:
  assumes sc: "sub_checks P p"
  shows "\<exists>s4 es.
      thenP (check_exprWithHint p ev t s2)
        (\<lambda>(x, s3). thenP (check_assignment p x t s3)
          (\<lambda>(ok, x1, s4).
             Inr (st,
                  if \<not> ok \<and> mode x1 \<noteq> invalid
                  then errorf (pos x1) ''cannot use %s as %s value in array or slice literal'' s4
                  else s4))) = Inr (st, s4)
      \<and> errors s4 = errors s2 @ es"
proof -
  from sub_checksD(2) [OF sc, of ev t s2] obtain x3 s3 es3 where
    a: "check_exprWithHint p ev t s2 = Inr (x3, s3)" "errors s3 = errors s2 @ es3"
    by blast
  from sub_checksD(3) [OF sc, of x3 t s3] obtain ok x4 s4 es4 where
    b: "check_assignment p x3 t s3 = Inr (ok, x4, s4)" "errors s4 = errors s3 @ es4"
    by blast
  show ?thesis
    using a b by (auto simp: errorf_def)
qed

lemma indexedElt_step:
  assumes sc: "sub_checks P p"
    and ek: "explicit_keys p len key [e]"
    and ix: "sint idx = nxt" "0 \<le> nxt"
    and nov: "used_index key nxt e < 2 ^ 63 - 1"
  shows "\<exists>vis1 idx2 mx1 s1 errs.
        indexedElt p t len e (vis, idx, mx) s = Inr ((vis1, idx2, mx1), s1)
      \<and> errors s1 = errors s @ errs \<and> vis \<subseteq> vis1
      \<and> 0 \<le> used_index key nxt e
      \<and> sint idx2 = used_index key nxt e + 1
      \<and> sint mx1 = max (sint mx) (used_index key nxt e + 1)
      \<and> (key e \<noteq> None \<or> \<not> (0 \<le> sint len \<and> sint len \<le> nxt) \<longrightarrow>
            word_of_int (used_index key nxt e) \<in> vis1)
      \<and> (key e \<noteq> None \<and> word_of_int (used_index key nxt e) \<in> vis \<longrightarrow>
            duplicate_index (node e) \<in> set errs)"
proof -
  let ?u = "used_index key nxt e"
  have "\<exists>validIndex s1 errs1.
      (case e of
           KeyValueExpr n k v \<Rightarrow>
             thenP (index p k len s)
               (\<lambda>((i, ok), s1). Inr (ok, (if ok \<and> 0 \<le> sint i then i else idx), v, s1))
         | _ \<Rightarrow>
             if 0 \<le> sint len \<and> sint len \<le> sint idx then
               Inr (False, idx, e, errorf (node e) ''index %d is out of bounds (>= %d)'' s)
             else Inr (True, idx, e, s))
       = Inr (validIndex, word_of_int ?u, (case e of KeyValueExpr n k v \<Rightarrow> v | _ \<Rightarrow> e), s1)
     \<and> errors s1 = errors s @ errs1 \<and> 0 \<le> ?u \<and> sint (word_of_int ?u :: 64 word) = ?u
     \<and> validIndex = (key e \<noteq> None \<or> \<not> (0 \<le> sint len \<and> sint len \<le> nxt))"
  proof (cases "\<exists>n k v. e = KeyValueExpr n k v")
    case True
    then obtain n k v where e: "e = KeyValueExpr n k v" by blast
    with ek obtain i where i: "key e = Some i" "key_index p len k i"
      by (auto simp: explicit_keys_def)
    then have u: "?u = i" by (simp add: used_index_def)
    from i(2) obtain s1 errs1 where
      1: "index p k len s = Inr ((word_of_int i, True), s1)" "errors s1 = errors s @ errs1"
      and b: "0 \<le> i" "i < 2 ^ 63"
      unfolding key_index_def by blast
    have si: "sint (word_of_int i :: 64 word) = i" using b by (intro sint_word64) simp_all
    have u': "used_index key nxt (KeyValueExpr n k v) = i" using u e by simp
    show ?thesis
      unfolding e using 1 b si i(1) e u' by auto
  next
    case False
    with ek have k: "key e = None" by (cases e) (auto simp: explicit_keys_def)
    then have u: "?u = nxt" by (simp add: used_index_def)
    have w: "word_of_int nxt = idx" using ix(1) by auto
    from False show ?thesis
      unfolding u w using ix k by (cases e) (auto simp: errorf_def)
  qed
  then obtain validIndex s1 errs1 where
    1: "(case e of
           KeyValueExpr n k v \<Rightarrow>
             thenP (index p k len s)
               (\<lambda>((i, ok), s1). Inr (ok, (if ok \<and> 0 \<le> sint i then i else idx), v, s1))
         | _ \<Rightarrow>
             if 0 \<le> sint len \<and> sint len \<le> sint idx then
               Inr (False, idx, e, errorf (node e) ''index %d is out of bounds (>= %d)'' s)
             else Inr (True, idx, e, s))
       = Inr (validIndex, word_of_int ?u, (case e of KeyValueExpr n k v \<Rightarrow> v | _ \<Rightarrow> e), s1)"
    and e1: "errors s1 = errors s @ errs1" and u0: "0 \<le> ?u"
    and su: "sint (word_of_int ?u :: 64 word) = ?u"
    and vi: "validIndex = (key e \<noteq> None \<or> \<not> (0 \<le> sint len \<and> sint len \<le> nxt))"
    by blast
  let ?idx1 = "word_of_int ?u :: 64 word"
  let ?s2 = "if validIndex \<and> ?idx1 \<in> vis
             then errorf (node e) ''duplicate index %d in array or slice literal'' s1 else s1"
  let ?vis1 = "if validIndex then insert ?idx1 vis else vis"
  let ?mx1 = "if sint mx < sint (?idx1 + 1) then ?idx1 + 1 else mx"
  from indexedElt_value [OF sc, of "(case e of KeyValueExpr n k v \<Rightarrow> v | _ \<Rightarrow> e)" t ?s2
      "(?vis1, ?idx1 + 1, ?mx1)"]
  obtain s4 errs4 where
    2: "thenP (check_exprWithHint p (case e of KeyValueExpr n k v \<Rightarrow> v | _ \<Rightarrow> e) t ?s2)
        (\<lambda>(x, s3). thenP (check_assignment p x t s3)
          (\<lambda>(ok, x1, s4).
             Inr ((?vis1, ?idx1 + 1, ?mx1),
                  if \<not> ok \<and> mode x1 \<noteq> invalid
                  then errorf (pos x1) ''cannot use %s as %s value in array or slice literal'' s4
                  else s4))) = Inr ((?vis1, ?idx1 + 1, ?mx1), s4)"
    and e4: "errors s4 = errors ?s2 @ errs4"
    by blast
  have r: "indexedElt p t len e (vis, idx, mx) s = Inr ((?vis1, ?idx1 + 1, ?mx1), s4)"
    unfolding indexedElt_def prod.case 1 thenP_simps Let_def using 2 by simp
  have s1': "sint (?idx1 + 1) = ?u + 1" using sint_succ [OF su nov u0] .
  have er: "\<exists>errs. errors s4 = errors s @ errs
      \<and> (validIndex \<and> ?idx1 \<in> vis \<longrightarrow> duplicate_index (node e) \<in> set errs)"
    using e1 e4 by (auto simp: errorf_def duplicate_index_def)
  then obtain errs where er': "errors s4 = errors s @ errs"
    "validIndex \<and> ?idx1 \<in> vis \<longrightarrow> duplicate_index (node e) \<in> set errs" by blast
  show ?thesis
  proof (intro exI conjI)
    show "indexedElt p t len e (vis, idx, mx) s = Inr ((?vis1, ?idx1 + 1, ?mx1), s4)" by (rule r)
    show "errors s4 = errors s @ errs" by (rule er'(1))
    show "vis \<subseteq> ?vis1" by auto
    show "0 \<le> ?u" by (rule u0)
    show "sint (?idx1 + 1) = ?u + 1" by (rule s1')
    show "sint ?mx1 = max (sint mx) (?u + 1)" using s1' by auto
    show "key e \<noteq> None \<or> \<not> (0 \<le> sint len \<and> sint len \<le> nxt) \<longrightarrow> ?idx1 \<in> ?vis1"
      using vi by simp
    show "key e \<noteq> None \<and> ?idx1 \<in> vis \<longrightarrow> duplicate_index (node e) \<in> set errs"
      using er'(2) vi by simp
  qed
qed


lemma explicit_keys_Cons:
  "explicit_keys p len key (e # es) = (explicit_keys p len key [e] \<and> explicit_keys p len key es)"
  unfolding explicit_keys_def list.set by blast

lemma fold_max_Max:
  "xs \<noteq> [] \<Longrightarrow> fold max (map (\<lambda>i. i + 1) xs) (a :: int) = max a (1 + Max (set xs))"
proof (induction xs arbitrary: a)
  case Nil
  then show ?case by simp
next
  case (Cons x xs)
  show ?case
  proof (cases "xs = []")
    case True
    then show ?thesis by (simp add: max.commute)
  next
    case False
    from Cons.IH [OF False, of "max (x + 1) a"] False show ?thesis
      by (simp add: max_def)
  qed
qed

lemma indexedElts_run:
  assumes sc: "sub_checks P p"
  shows "explicit_keys p len key es \<Longrightarrow> sint idx = nxt \<Longrightarrow> 0 \<le> nxt \<Longrightarrow>
     \<forall>i\<in>set (elt_indices key nxt es). i < 2 ^ 63 - 1 \<Longrightarrow>
     \<exists>vis' idx' mx' s' errs.
        indexedElts_loop p t len es (vis, idx, mx) s = Inr ((vis', idx', mx'), s')
      \<and> errors s' = errors s @ errs \<and> vis \<subseteq> vis'
      \<and> (\<forall>i\<in>set (elt_indices key nxt es). 0 \<le> i)
      \<and> sint mx' = fold max (map (\<lambda>i. i + 1) (elt_indices key nxt es)) (sint mx)
      \<and> (\<forall>j<length es.
            key (es ! j) \<noteq> None
          \<or> \<not> (0 \<le> sint len \<and> sint len \<le> elt_indices key nxt es ! j) \<longrightarrow>
            word_of_int (elt_indices key nxt es ! j) \<in> vis')
      \<and> (\<forall>j<length es.
            key (es ! j) \<noteq> None
          \<and> (word_of_int (elt_indices key nxt es ! j) \<in> vis
             \<or> (\<exists>j0<j. elt_indices key nxt es ! j0 = elt_indices key nxt es ! j
                  \<and> (key (es ! j0) \<noteq> None
                     \<or> \<not> (0 \<le> sint len \<and> sint len \<le> elt_indices key nxt es ! j0)))) \<longrightarrow>
            duplicate_index (node (es ! j)) \<in> set errs)"
proof (induction es arbitrary: vis idx mx s nxt)
  case Nil
  show ?case by simp
next
  case (Cons e es)
  let ?u = "used_index key nxt e"
  let ?is = "elt_indices key (?u + 1) es"
  from Cons.prems(1) have ek: "explicit_keys p len key [e]" "explicit_keys p len key es"
    using explicit_keys_Cons by blast+
  from Cons.prems(4) have nov: "?u < 2 ^ 63 - 1" "\<forall>i\<in>set ?is. i < 2 ^ 63 - 1"
    by simp_all
  from indexedElt_step [OF sc ek(1) Cons.prems(2,3) nov(1), of t vis mx s]
  obtain vis1 idx2 mx1 s1 errs1 where
    st: "indexedElt p t len e (vis, idx, mx) s = Inr ((vis1, idx2, mx1), s1)"
    and e1: "errors s1 = errors s @ errs1" and v1: "vis \<subseteq> vis1"
    and u0: "0 \<le> ?u" and i2: "sint idx2 = ?u + 1"
    and m1: "sint mx1 = max (sint mx) (?u + 1)"
    and val: "key e \<noteq> None \<or> \<not> (0 \<le> sint len \<and> sint len \<le> nxt) \<longrightarrow> word_of_int ?u \<in> vis1"
    and dup: "key e \<noteq> None \<and> word_of_int ?u \<in> vis \<longrightarrow> duplicate_index (node e) \<in> set errs1"
    by (elim exE conjE) (rule that)
  have un: "key e = None \<Longrightarrow> ?u = nxt" by (simp add: used_index_def)
  have u1: "0 \<le> ?u + 1" using u0 by simp
  from Cons.IH [OF ek(2) i2 u1 nov(2), of vis1 mx1 s1]
  obtain vis' idx' mx' s' errs where
    r: "indexedElts_loop p t len es (vis1, idx2, mx1) s1 = Inr ((vis', idx', mx'), s')"
    and e2: "errors s' = errors s1 @ errs" and v2: "vis1 \<subseteq> vis'"
    and nn: "\<forall>i\<in>set ?is. 0 \<le> i"
    and m2: "sint mx' = fold max (map (\<lambda>i. i + 1) ?is) (sint mx1)"
    and val2: "\<forall>j<length es.
            key (es ! j) \<noteq> None \<or> \<not> (0 \<le> sint len \<and> sint len \<le> ?is ! j) \<longrightarrow>
            word_of_int (?is ! j) \<in> vis'"
    and dup2: "\<forall>j<length es.
            key (es ! j) \<noteq> None
          \<and> (word_of_int (?is ! j) \<in> vis1
             \<or> (\<exists>j0<j. ?is ! j0 = ?is ! j
                  \<and> (key (es ! j0) \<noteq> None \<or> \<not> (0 \<le> sint len \<and> sint len \<le> ?is ! j0)))) \<longrightarrow>
            duplicate_index (node (es ! j)) \<in> set errs"
    by (elim exE conjE) (rule that)
  have val0: "key e \<noteq> None \<or> \<not> (0 \<le> sint len \<and> sint len \<le> ?u) \<longrightarrow> word_of_int ?u \<in> vis1"
    using val un by (cases "key e") auto
  show ?case
  proof (intro exI conjI)
    show "indexedElts_loop p t len (e # es) (vis, idx, mx) s = Inr ((vis', idx', mx'), s')"
      using st r by simp
    show "errors s' = errors s @ (errs1 @ errs)" using e1 e2 by simp
    show "vis \<subseteq> vis'" using v1 v2 by blast
    show "\<forall>i\<in>set (elt_indices key nxt (e # es)). 0 \<le> i" using u0 nn by simp
    show "sint mx' = fold max (map (\<lambda>i. i + 1) (elt_indices key nxt (e # es))) (sint mx)"
      using m2 m1 by (simp add: max.commute)
    show "\<forall>j<length (e # es).
            key ((e # es) ! j) \<noteq> None
          \<or> \<not> (0 \<le> sint len \<and> sint len \<le> elt_indices key nxt (e # es) ! j) \<longrightarrow>
            word_of_int (elt_indices key nxt (e # es) ! j) \<in> vis'"
    proof (intro allI impI)
      fix j assume j: "j < length (e # es)"
        and h: "key ((e # es) ! j) \<noteq> None
          \<or> \<not> (0 \<le> sint len \<and> sint len \<le> elt_indices key nxt (e # es) ! j)"
      show "word_of_int (elt_indices key nxt (e # es) ! j) \<in> vis'"
      proof (cases j)
        case 0
        with h val0 v2 show ?thesis by auto
      next
        case (Suc j')
        with j h val2 show ?thesis by simp
      qed
    qed
    show "\<forall>j<length (e # es).
            key ((e # es) ! j) \<noteq> None
          \<and> (word_of_int (elt_indices key nxt (e # es) ! j) \<in> vis
             \<or> (\<exists>j0<j. elt_indices key nxt (e # es) ! j0 = elt_indices key nxt (e # es) ! j
                  \<and> (key ((e # es) ! j0) \<noteq> None
                     \<or> \<not> (0 \<le> sint len \<and> sint len \<le> elt_indices key nxt (e # es) ! j0)))) \<longrightarrow>
            duplicate_index (node ((e # es) ! j)) \<in> set (errs1 @ errs)"
    proof (intro allI impI)
      fix j assume j: "j < length (e # es)"
        and h: "key ((e # es) ! j) \<noteq> None
          \<and> (word_of_int (elt_indices key nxt (e # es) ! j) \<in> vis
             \<or> (\<exists>j0<j. elt_indices key nxt (e # es) ! j0 = elt_indices key nxt (e # es) ! j
                  \<and> (key ((e # es) ! j0) \<noteq> None
                     \<or> \<not> (0 \<le> sint len \<and> sint len \<le> elt_indices key nxt (e # es) ! j0))))"
      show "duplicate_index (node ((e # es) ! j)) \<in> set (errs1 @ errs)"
      proof (cases j)
        case 0
        with h dup show ?thesis by simp
      next
        case (Suc j')
        with j have j': "j' < length es" by simp
        from h Suc have k: "key (es ! j') \<noteq> None" by simp
        from h Suc consider
          (a) "word_of_int (?is ! j') \<in> vis"
          | (b) j0 where "j0 < Suc j'" "(?u # ?is) ! j0 = ?is ! j'"
            "key ((e # es) ! j0) \<noteq> None
              \<or> \<not> (0 \<le> sint len \<and> sint len \<le> (?u # ?is) ! j0)"
          by auto
        then have "word_of_int (?is ! j') \<in> vis1
             \<or> (\<exists>j0<j'. ?is ! j0 = ?is ! j'
                  \<and> (key (es ! j0) \<noteq> None \<or> \<not> (0 \<le> sint len \<and> sint len \<le> ?is ! j0)))"
        proof cases
          case a
          with v1 show ?thesis by blast
        next
          case b
          show ?thesis
          proof (cases j0)
            case 0
            with b val0 show ?thesis by auto
          next
            case (Suc j1)
            with b show ?thesis by auto
          qed
        qed
        with dup2 j' k have "duplicate_index (node (es ! j')) \<in> set errs" by blast
        with Suc show ?thesis by simp
      qed
    qed
  qed
qed

lemma key_table_key_index:
  assumes "0 \<le> f k" "f k < 2 ^ 63" "sint len < 0 \<or> f k < sint len"
  shows "key_index (table_pkg (key_table f)) len (BasicLit k) (f k)"
proof -
  have t: "key_table f (BasicLit k) = const_int (BasicLit k) (f k)" by (simp add: key_table_def)
  show ?thesis
    unfolding key_index_def
      index_table_const [where tab = "key_table f" and k = k and i = "f k", OF t assms(1,2)]
    using assms by (auto simp: Let_def)
qed

lemma out_of_order_keys:
  "explicit_keys (table_pkg (key_table (\<lambda>n. if n = 2 then 5 else 1))) (- 1)
     (literal_key (\<lambda>n. if n = 2 then 5 else 1)) out_of_order"
  using key_table_key_index [of "\<lambda>n. if n = 2 then 5 else 1" 2 "- 1"]
    key_table_key_index [of "\<lambda>n. if n = 2 then 5 else 1" 5 "- 1"]
    key_table_key_index [of "\<lambda>n. if n = 2 then 5 else 1" 9 "- 1"]
  by (simp add: explicit_keys_def out_of_order_def literal_key_def)

lemma max_index_keys:
  "explicit_keys (table_pkg (key_table (\<lambda>n. 2 ^ 63 - 1))) (- 1)
     (literal_key (\<lambda>n. 2 ^ 63 - 1)) max_index"
  using key_table_key_index [of "\<lambda>n. 2 ^ 63 - 1" 2 "- 1"]
  by (simp add: explicit_keys_def max_index_def literal_key_def)





end
